theory Spec2Isabelle
  imports Main "HOL-Library.Sublist"
begin

section \<open>Data model\<close>

text \<open>
  The records of \<^verbatim>\<open>src/application/TestSuite.ts\<close> and
  \<^verbatim>\<open>src/application/IntegrationTestWriter.ts\<close>. Optional properties are
  \<open>option\<close>s; a JavaScript object read with \<^verbatim>\<open>Object.entries\<close> is the list of its
  entries in the order \<^verbatim>\<open>Object.entries\<close> yields them. Strings are ASCII.
\<close>

type_synonym schema = string

text \<open>
  One option object of a contract test rule, such as the value of \<^verbatim>\<open>statusSuccess\<close> or
  of \<^verbatim>\<open>statusCode\<close>: the \<^verbatim>\<open>enabled\<close> flag, the exclusion list of this check
  kind and the parameters that the status code and response time checks carry.
\<close>

record ContractTest =
  enabled :: bool
  kindExcludeForOperations :: "string list option"
  ct_code :: "nat option"
  ct_maxMs :: "nat option"

text \<open>
  The assertions that the injectors write into a request record, each with the parameter
  it checks against. Which injector wrote an assertion is its kind, named as the rule
  names the check.
\<close>

datatype assertion =
    StatusSuccessTest
  | StatusCodeTest "nat option"
  | ResponseTimeTest "nat option"
  | ContentTypeTest string
  | JsonBodyTest
  | JsonSchemaTest schema
  | HeaderTest string
  | BodyContentTest "string list"

fun kindOf :: "assertion \<Rightarrow> string" where
  "kindOf StatusSuccessTest = ''statusSuccess''"
| "kindOf (StatusCodeTest c) = ''statusCode''"
| "kindOf (ResponseTimeTest c) = ''responseTime''"
| "kindOf (ContentTypeTest t) = ''contentType''"
| "kindOf JsonBodyTest = ''jsonBody''"
| "kindOf (JsonSchemaTest s) = ''schemaValidation''"
| "kindOf (HeaderTest h) = ''headersPresent''"
| "kindOf (BodyContentTest b) = ''responseBodyTests''"

text \<open>A request record (\<^verbatim>\<open>PostmanMappedOperation\<close>); its identifier may be missing.\<close>

record PostmanMappedOperation =
  pm_id :: "string option"
  pm_pathRef :: string
  pm_name :: string
  pm_tests :: "assertion list"

text \<open>A contract operation (\<^verbatim>\<open>OasMappedOperation\<close>) and the response objects below it.\<close>

record MediaTypeObject =
  mt_schema :: "schema option"

record ResponseObject =
  content :: "(string \<times> MediaTypeObject) list option"
  headers :: "(string \<times> string) list option"

record OperationObject =
  responses :: "(string \<times> ResponseObject) list option"

record OasMappedOperation =
  oa_pathRef :: string
  oa_schema :: "OperationObject option"

text \<open>
  What every rule carries: the target by path reference or by operation identifier, and
  the exclusion list of the rule. The rule kinds extend this record.
\<close>

record OperationSetting =
  openApiOperation :: "string option"
  openApiOperationId :: "string option"
  excludeForOperations :: "string list option"

text \<open>
  A contract test rule. Its check kinds are properties that the code reads by name
  (\<^verbatim>\<open>contractTest[type]\<close>), so they are a map from the property name.
\<close>

record ContractTestConfig = OperationSetting +
  checks :: "string \<rightharpoonup> ContractTest"

record ContentTestConfig = OperationSetting +
  responseBodyTests :: "string list option"

section \<open>JavaScript built-ins\<close>

text \<open>
  A string property is truthy when it is present and not the empty string;
  \<open>truthyString\<close> gives its value then.
\<close>

definition truthyString :: "string option \<Rightarrow> string option" where
  "truthyString s = (case s of None \<Rightarrow> None | Some t \<Rightarrow> if t = [] then None else Some t)"

text \<open>
  \<^verbatim>\<open>parseInt(string)\<close> with no radix: leading white space is dropped, a sign is read,
  a prefix \<^verbatim>\<open>0x\<close> or \<^verbatim>\<open>0X\<close> selects radix 16, and the longest prefix of digits of
  the radix is the value; with no digit the result is \<^verbatim>\<open>NaN\<close>, here \<open>None\<close>.
\<close>

definition isStrWhiteSpace :: "char \<Rightarrow> bool" where
  "isStrWhiteSpace c = (c \<in> set [CHR '' '', CHR 0x09, CHR 0x0A, CHR 0x0B, CHR 0x0C, CHR 0x0D])"

definition digitValue :: "char \<Rightarrow> nat option" where
  "digitValue c =
     (let n = (of_char c :: nat) in
      if 48 \<le> n \<and> n \<le> 57 then Some (n - 48)
      else if 97 \<le> n \<and> n \<le> 102 then Some (n - 87)
      else if 65 \<le> n \<and> n \<le> 70 then Some (n - 55)
      else None)"

fun digitsValue :: "nat \<Rightarrow> string \<Rightarrow> nat option \<Rightarrow> nat option" where
  "digitsValue R [] acc = acc"
| "digitsValue R (c # cs) acc =
     (case digitValue c of
        None \<Rightarrow> acc
      | Some d \<Rightarrow>
          if d < R
          then digitsValue R cs (Some (R * (case acc of None \<Rightarrow> 0 | Some a \<Rightarrow> a) + d))
          else acc)"

definition readSign :: "string \<Rightarrow> int \<times> string" where
  "readSign s =
     (case s of
        [] \<Rightarrow> (1, s)
      | c # cs \<Rightarrow>
          if c = CHR ''-'' then (- 1, cs)
          else if c = CHR ''+'' then (1, cs)
          else (1, s))"

definition readRadix :: "string \<Rightarrow> nat \<times> string" where
  "readRadix s =
     (case s of
        a # b # cs \<Rightarrow>
          if a = CHR ''0'' \<and> (b = CHR ''x'' \<or> b = CHR ''X'') then (16, cs) else (10, s)
      | _ \<Rightarrow> (10, s))"

definition parseInt :: "string \<Rightarrow> int option" where
  "parseInt inputString =
     (case readSign (dropWhile isStrWhiteSpace inputString) of
        (sign, s1) \<Rightarrow>
          (case readRadix s1 of
             (R, s2) \<Rightarrow> map_option (\<lambda>n. sign * int n) (digitsValue R s2 None)))"

section \<open>Helpers of the repository that are outside the two source files\<close>

text \<open>
  Modelled from the spec: \<^verbatim>\<open>inRange\<close> of \<^verbatim>\<open>src/utils\<close> is missing. The spec gives
  the success range as lower bound inclusive and upper bound exclusive. A \<^verbatim>\<open>NaN\<close>
  is in no range.
\<close>

definition inRange :: "int option \<Rightarrow> int \<Rightarrow> int \<Rightarrow> bool" where
  "inRange x lo hi = (case x of None \<Rightarrow> False | Some n \<Rightarrow> lo \<le> n \<and> n < hi)"

text \<open>
  Modelled from the spec: \<^verbatim>\<open>inOperations\<close> of \<^verbatim>\<open>src/utils/inOperations\<close> is
  missing. By the spec an exclusion list holds operation identifiers or path references,
  and a request record is excluded when its identifier or its path reference is in the
  list; with no list nothing is excluded.
\<close>

definition inOperations :: "PostmanMappedOperation \<Rightarrow> string list option \<Rightarrow> bool" where
  "inOperations pmOperation operations =
     (case operations of
        None \<Rightarrow> False
      | Some ops \<Rightarrow>
          (case pm_id pmOperation of None \<Rightarrow> False | Some i \<Rightarrow> i \<in> set ops)
          \<or> pm_pathRef pmOperation \<in> set ops)"

text \<open>
  Modelled from the spec: the assertion injectors (\<^verbatim>\<open>testResponseStatusSuccess\<close> and
  its siblings) are missing. By the spec each takes a request record, plus contract data
  where needed, and returns the same record with one additional assertion appended.
\<close>

definition writeOperationTestScript :: "PostmanMappedOperation \<Rightarrow> assertion \<Rightarrow> PostmanMappedOperation" where
  "writeOperationTestScript pmOperation pmTest =
     pmOperation\<lparr>pm_tests := pm_tests pmOperation @ [pmTest]\<rparr>"

definition testResponseStatusSuccess :: "PostmanMappedOperation \<Rightarrow> PostmanMappedOperation" where
  "testResponseStatusSuccess pmOperation = writeOperationTestScript pmOperation StatusSuccessTest"

definition testResponseStatusCode :: "ContractTest \<Rightarrow> PostmanMappedOperation \<Rightarrow> PostmanMappedOperation" where
  "testResponseStatusCode statusCode pmOperation =
     writeOperationTestScript pmOperation (StatusCodeTest (ct_code statusCode))"

definition testResponseTime :: "ContractTest \<Rightarrow> PostmanMappedOperation \<Rightarrow> PostmanMappedOperation" where
  "testResponseTime responseTime pmOperation =
     writeOperationTestScript pmOperation (ResponseTimeTest (ct_maxMs responseTime))"

definition testResponseContentType ::
  "string \<Rightarrow> PostmanMappedOperation \<Rightarrow> OasMappedOperation \<Rightarrow> PostmanMappedOperation" where
  "testResponseContentType contentType pmOperation oaOperation =
     writeOperationTestScript pmOperation (ContentTypeTest contentType)"

definition testResponseJsonBody ::
  "PostmanMappedOperation \<Rightarrow> OasMappedOperation \<Rightarrow> PostmanMappedOperation" where
  "testResponseJsonBody pmOperation oaOperation =
     writeOperationTestScript pmOperation JsonBodyTest"

definition testResponseJsonSchema ::
  "schema \<Rightarrow> PostmanMappedOperation \<Rightarrow> OasMappedOperation \<Rightarrow> PostmanMappedOperation" where
  "testResponseJsonSchema sch pmOperation oaOperation =
     writeOperationTestScript pmOperation (JsonSchemaTest sch)"

definition testResponseHeader ::
  "string \<Rightarrow> PostmanMappedOperation \<Rightarrow> OasMappedOperation \<Rightarrow> PostmanMappedOperation" where
  "testResponseHeader headerName pmOperation oaOperation =
     writeOperationTestScript pmOperation (HeaderTest headerName)"

definition testResponseBodyContent ::
  "string list \<Rightarrow> PostmanMappedOperation \<Rightarrow> PostmanMappedOperation" where
  "testResponseBodyContent bodyTests pmOperation =
     writeOperationTestScript pmOperation (BodyContentTest bodyTests)"

section \<open>TestSuite.injectContractTests\<close>

definition getTestTypeFromContractTests ::
  "ContractTestConfig \<Rightarrow> string \<Rightarrow> ContractTest option" where
  "getTestTypeFromContractTests contractTest type = checks contractTest type"

text \<open>\<^verbatim>\<open>opt?.excludeForOperations\<close> of an option object that may be absent.\<close>

definition exclusionOf :: "ContractTest option \<Rightarrow> string list option" where
  "exclusionOf opt = (case opt of None \<Rightarrow> None | Some c \<Rightarrow> kindExcludeForOperations c)"

text \<open>The loop over the content types of one response (lines 200 to 226).\<close>

fun contentLoop ::
  "ContractTest option \<Rightarrow> ContractTest option \<Rightarrow> ContractTest option \<Rightarrow> OasMappedOperation
   \<Rightarrow> (string \<times> MediaTypeObject) list \<Rightarrow> PostmanMappedOperation \<Rightarrow> PostmanMappedOperation" where
  "contentLoop optContentType optJsonBody optSchemaValidation oaOperation [] pmOperation =
     pmOperation"
| "contentLoop optContentType optJsonBody optSchemaValidation oaOperation
     ((contentType, cont) # rest) pmOperation =
     (if contentType = [] then
        contentLoop optContentType optJsonBody optSchemaValidation oaOperation rest pmOperation
      else
        let pm1 =
              (if optContentType \<noteq> None
                  \<and> \<not> inOperations pmOperation (exclusionOf optContentType)
               then testResponseContentType contentType pmOperation oaOperation
               else pmOperation);
            pm2 =
              (if optJsonBody \<noteq> None \<and> contentType = ''application/json''
                  \<and> \<not> inOperations pm1 (exclusionOf optJsonBody)
               then testResponseJsonBody pm1 oaOperation
               else pm1);
            pm3 =
              (case mt_schema cont of
                 None \<Rightarrow> pm2
               | Some sch \<Rightarrow>
                   if optSchemaValidation \<noteq> None
                      \<and> \<not> inOperations pm2 (exclusionOf optSchemaValidation)
                   then testResponseJsonSchema sch pm2 oaOperation
                   else pm2)
        in contentLoop optContentType optJsonBody optSchemaValidation oaOperation rest pm3)"

text \<open>The loop over the headers of one response (lines 231 to 241).\<close>

fun headerLoop ::
  "ContractTest option \<Rightarrow> OasMappedOperation \<Rightarrow> (string \<times> string) list
   \<Rightarrow> PostmanMappedOperation \<Rightarrow> PostmanMappedOperation" where
  "headerLoop optHeadersPresent oaOperation [] pmOperation = pmOperation"
| "headerLoop optHeadersPresent oaOperation ((headerName, h) # rest) pmOperation =
     (if headerName = [] then headerLoop optHeadersPresent oaOperation rest pmOperation
      else
        headerLoop optHeadersPresent oaOperation rest
          (if optHeadersPresent \<noteq> None
              \<and> \<not> inOperations pmOperation (exclusionOf optHeadersPresent)
           then testResponseHeader headerName pmOperation oaOperation
           else pmOperation))"

text \<open>The body of the loop over the responses, for a response in the range (lines 170 to 242).\<close>

definition responseBody ::
  "ContractTestConfig \<Rightarrow> OasMappedOperation \<Rightarrow> ResponseObject
   \<Rightarrow> PostmanMappedOperation \<Rightarrow> PostmanMappedOperation" where
  "responseBody contractTest oaOperation responseObject pmOperation =
     (let optStatusSuccess = getTestTypeFromContractTests contractTest ''statusSuccess'';
          optStatusCode = getTestTypeFromContractTests contractTest ''statusCode'';
          optResponseTime = getTestTypeFromContractTests contractTest ''responseTime'';
          optContentType = getTestTypeFromContractTests contractTest ''contentType'';
          optJsonBody = getTestTypeFromContractTests contractTest ''jsonBody'';
          optSchemaValidation = getTestTypeFromContractTests contractTest ''schemaValidation'';
          optHeadersPresent = getTestTypeFromContractTests contractTest ''headersPresent'';
          pm1 =
            (if optStatusSuccess \<noteq> None
                \<and> \<not> inOperations pmOperation (exclusionOf optStatusSuccess)
             then testResponseStatusSuccess pmOperation
             else pmOperation);
          pm2 =
            (case optStatusCode of
               None \<Rightarrow> pm1
             | Some statusCode \<Rightarrow>
                 if \<not> inOperations pm1 (exclusionOf optStatusCode)
                 then testResponseStatusCode statusCode pm1
                 else pm1);
          pm3 =
            (case optResponseTime of
               None \<Rightarrow> pm2
             | Some responseTime \<Rightarrow>
                 if \<not> inOperations pm2 (exclusionOf optResponseTime)
                 then testResponseTime responseTime pm2
                 else pm2);
          pm4 =
            (case content responseObject of
               None \<Rightarrow> pm3
             | Some entries \<Rightarrow>
                 contentLoop optContentType optJsonBody optSchemaValidation oaOperation entries pm3)
      in (case headers responseObject of
            None \<Rightarrow> pm4
          | Some entries \<Rightarrow> headerLoop optHeadersPresent oaOperation entries pm4))"

text \<open>The loop over the responses (lines 162 to 243).\<close>

fun responsesLoop ::
  "ContractTestConfig \<Rightarrow> OasMappedOperation \<Rightarrow> (string \<times> ResponseObject) list
   \<Rightarrow> PostmanMappedOperation \<Rightarrow> PostmanMappedOperation" where
  "responsesLoop contractTest oaOperation [] pmOperation = pmOperation"
| "responsesLoop contractTest oaOperation ((code, response) # rest) pmOperation =
     (if \<not> inRange (parseInt code) 200 302
      then responsesLoop contractTest oaOperation rest pmOperation
      else responsesLoop contractTest oaOperation rest
             (responseBody contractTest oaOperation response pmOperation))"

text \<open>\<^verbatim>\<open>oaOperation.schema?.responses\<close>.\<close>

definition responsesOf :: "OasMappedOperation \<Rightarrow> (string \<times> ResponseObject) list option" where
  "responsesOf oaOperation =
     (case oa_schema oaOperation of None \<Rightarrow> None | Some s \<Rightarrow> responses s)"

definition injectContractTests ::
  "PostmanMappedOperation \<Rightarrow> OasMappedOperation \<Rightarrow> ContractTestConfig \<Rightarrow> PostmanMappedOperation" where
  "injectContractTests pmOperation oaOperation contractTest =
     (case responsesOf oaOperation of
        None \<Rightarrow> pmOperation
      | Some entries \<Rightarrow> responsesLoop contractTest oaOperation entries pmOperation)"

text \<open>
  The assertions that a call appends: the tests of the result after those the record had.
\<close>

definition injected ::
  "PostmanMappedOperation \<Rightarrow> OasMappedOperation \<Rightarrow> ContractTestConfig \<Rightarrow> assertion list" where
  "injected pmOperation oaOperation contractTest =
     drop (length (pm_tests pmOperation))
       (pm_tests (injectContractTests pmOperation oaOperation contractTest))"

text \<open>The responses that pass the range test of line 166, in their order.\<close>

definition eligible :: "string \<times> ResponseObject \<Rightarrow> bool" where
  "eligible entry = inRange (parseInt (fst entry)) 200 302"

section \<open>TestSuite: resolving the operations of a rule, and the passes over the rules\<close>

text \<open>
  Request records are objects that the parser, the rules and the injectors share, and the
  injectors change them in place. A reference is an address, and the store gives the
  record at every address.
\<close>

type_synonym ref = nat

type_synonym store = "ref \<Rightarrow> PostmanMappedOperation"

text \<open>
  The two parsers are outside the two source files. Their methods are parameters here:
  any functions from the reference given to the records found.
\<close>

record PostmanParser =
  mappedOperations :: "ref list"
  getOperationsByPath :: "string \<Rightarrow> ref list"
  getOperationsByIds :: "string list \<Rightarrow> ref list"
  getOperationById :: "string \<Rightarrow> ref option"

record OpenApiParser =
  getOperationByPath :: "string \<Rightarrow> OasMappedOperation option"

record TestSuite =
  oasParser :: OpenApiParser
  postmanParser :: PostmanParser
  contractTests :: "ContractTestConfig list option"
  contentTests :: "ContentTestConfig list option"

text \<open>Lines 124 to 130: the records that the rule names, before the exclusion.\<close>

definition referencedOperations :: "TestSuite \<Rightarrow> 'a OperationSetting_scheme \<Rightarrow> ref list" where
  "referencedOperations this settings =
     (case truthyString (openApiOperation settings) of
        Some path \<Rightarrow> getOperationsByPath (postmanParser this) path
      | None \<Rightarrow>
          (case truthyString (openApiOperationId settings) of
             Some ident \<Rightarrow> getOperationsByIds (postmanParser this) [ident]
           | None \<Rightarrow> []))"

text \<open>The predicate of the filter of lines 134 to 140.\<close>

definition keptByExclusion :: "string list \<Rightarrow> PostmanMappedOperation \<Rightarrow> bool" where
  "keptByExclusion excludedOperations pmOperation =
     (case truthyString (pm_id pmOperation) of
        None \<Rightarrow> False
      | Some ident \<Rightarrow>
          ident \<notin> set excludedOperations \<and> pm_pathRef pmOperation \<notin> set excludedOperations)"

definition getOperationsFromSetting ::
  "TestSuite \<Rightarrow> store \<Rightarrow> 'a OperationSetting_scheme \<Rightarrow> ref list" where
  "getOperationsFromSetting this st settings =
     (let pmOperations = referencedOperations this settings in
      case excludeForOperations settings of
        None \<Rightarrow> pmOperations
      | Some excludedOperations \<Rightarrow>
          filter (\<lambda>r. keptByExclusion excludedOperations (st r)) pmOperations)"

text \<open>
  \<^verbatim>\<open>generateContractTests\<close> (lines 70 to 92). The inner function handles one record
  under one rule; the injection changes the record in place.
\<close>

definition contractTestOperation ::
  "TestSuite \<Rightarrow> OasMappedOperation option \<Rightarrow> ContractTestConfig \<Rightarrow> ref \<Rightarrow> store \<Rightarrow> store" where
  "contractTestOperation this oaOperation contractTest r st =
     (case (case oaOperation of
              Some operation \<Rightarrow> Some operation
            | None \<Rightarrow> getOperationByPath (oasParser this) (pm_pathRef (st r))) of
        None \<Rightarrow> st
      | Some operation \<Rightarrow> st(r := injectContractTests (st r) operation contractTest))"

definition contractTestRule ::
  "TestSuite \<Rightarrow> ref list option \<Rightarrow> OasMappedOperation option \<Rightarrow> ContractTestConfig
   \<Rightarrow> store \<Rightarrow> store" where
  "contractTestRule this pmOperations oaOperation contractTest st =
     (let operations =
            (case pmOperations of
               Some given \<Rightarrow> given
             | None \<Rightarrow> getOperationsFromSetting this st contractTest)
      in fold (contractTestOperation this oaOperation contractTest) operations st)"

definition generateContractTests ::
  "TestSuite \<Rightarrow> ref list option \<Rightarrow> OasMappedOperation option \<Rightarrow> ContractTestConfig list option
   \<Rightarrow> store \<Rightarrow> store" where
  "generateContractTests this pmOperations oaOperation contractTestsArg st =
     (case (case contractTestsArg of Some given \<Rightarrow> Some given | None \<Rightarrow> contractTests this) of
        None \<Rightarrow> st
      | Some tests \<Rightarrow> fold (contractTestRule this pmOperations oaOperation) tests st)"

text \<open>
  \<^verbatim>\<open>injectContentTests\<close> (lines 247 to 268): the value returned and the store after
  the call.
\<close>

definition contentTestOperation :: "ContentTestConfig \<Rightarrow> ref \<Rightarrow> store \<Rightarrow> store" where
  "contentTestOperation contentTest r st =
     (case responseBodyTests contentTest of
        None \<Rightarrow> st
      | Some bodyTests \<Rightarrow> st(r := testResponseBodyContent bodyTests (st r)))"

definition contentTestRule ::
  "TestSuite \<Rightarrow> ref list option \<Rightarrow> ContentTestConfig \<Rightarrow> store \<Rightarrow> store" where
  "contentTestRule this pmOperations contentTest st =
     (let operations =
            (case pmOperations of
               Some given \<Rightarrow> given
             | None \<Rightarrow> getOperationsFromSetting this st contentTest)
      in fold (contentTestOperation contentTest) operations st)"

definition injectContentTests ::
  "TestSuite \<Rightarrow> ref list option \<Rightarrow> ContentTestConfig list option \<Rightarrow> store
   \<Rightarrow> ref list \<times> store" where
  "injectContentTests this pmOperations contentTestsArg st =
     (case contentTests this of
        None \<Rightarrow> (mappedOperations (postmanParser this), st)
      | Some own \<Rightarrow>
          (let tests = (case contentTestsArg of Some given \<Rightarrow> given | None \<Rightarrow> own)
           in (mappedOperations (postmanParser this),
               fold (contentTestRule this pmOperations) tests st)))"

section \<open>IntegrationTestWriter.add\<close>

text \<open>A variation of a scenario step: its name and the mutations it declares.\<close>

record Variation =
  var_name :: string
  var_overwrites :: "string list"

record IntegrationStep =
  step_openApiOperationId :: string
  variations :: "Variation list"

record IntegrationTestConfig =
  it_name :: string
  operations :: "IntegrationStep list"

text \<open>The items of a collection: a request record, or a named folder of items.\<close>

datatype item = RequestItem PostmanMappedOperation | FolderItem string "item list"

text \<open>
  Modelled from the spec: \<^verbatim>\<open>VariationWriter\<close> is missing. By the spec it holds a
  named grouping, \<^verbatim>\<open>addToFolder\<close> places a clone into the grouping, and
  \<^verbatim>\<open>mergeToCollection\<close> appends the accumulated grouping into the collection given
  and returns it.
\<close>

record VariationWriter =
  variationFolderName :: string
  variationFolder :: "item list"

definition newVariationWriter :: "string \<Rightarrow> VariationWriter" where
  "newVariationWriter folderName = \<lparr>variationFolderName = folderName, variationFolder = []\<rparr>"

definition addToFolder :: "PostmanMappedOperation \<Rightarrow> VariationWriter \<Rightarrow> VariationWriter" where
  "addToFolder operationVariation variationWriter =
     variationWriter\<lparr>variationFolder :=
       variationFolder variationWriter @ [RequestItem operationVariation]\<rparr>"

definition variationMergeToCollection :: "VariationWriter \<Rightarrow> item list \<Rightarrow> item list" where
  "variationMergeToCollection variationWriter collection =
     collection @ [FolderItem (variationFolderName variationWriter) (variationFolder variationWriter)]"

text \<open>
  Modelled from the spec: \<^verbatim>\<open>PostmanMappedOperation.clone\<close> is missing. By the spec
  the clone is a copy of the source record with the identifier and the name given.
\<close>

definition clone :: "PostmanMappedOperation \<Rightarrow> string \<Rightarrow> string \<Rightarrow> PostmanMappedOperation" where
  "clone pmOperation newId newName = pmOperation\<lparr>pm_id := Some newId, pm_name := newName\<rparr>"

text \<open>
  \<^verbatim>\<open>VariationWriter.injectVariations\<close> is missing too and is a parameter of the
  functions below: any function from the clone, the contract operation and the variation
  to the clone after the mutations and the injection.
\<close>

type_synonym injectVariations =
  "PostmanMappedOperation \<Rightarrow> OasMappedOperation option \<Rightarrow> Variation \<Rightarrow> PostmanMappedOperation"

text \<open>
  \<^verbatim>\<open>Math.random()\<close> is an input: \<open>random k\<close> is the text that the template literal
  of line 44 renders for the draw number \<open>k\<close> of the run, and the state counts the draws
  made so far.
\<close>

type_synonym random = "nat \<Rightarrow> string"

text \<open>The function mapped over the variations of one step (lines 40 to 50).\<close>

definition addVariation ::
  "injectVariations \<Rightarrow> random \<Rightarrow> PostmanMappedOperation \<Rightarrow> OasMappedOperation option
   \<Rightarrow> Variation \<Rightarrow> nat \<times> VariationWriter \<Rightarrow> nat \<times> VariationWriter" where
  "addVariation injectVariations random pmOperation oaOperation variation state =
     (case state of
        (draws, variationWriter) \<Rightarrow>
          (let variationName = var_name variation;
               operationVariation =
                 clone pmOperation (variationName @ ''-'' @ random draws) variationName
           in (Suc draws,
               addToFolder (injectVariations operationVariation oaOperation variation)
                 variationWriter)))"

text \<open>The function mapped over the steps of the scenario (lines 33 to 51).\<close>

definition addOperation ::
  "injectVariations \<Rightarrow> random \<Rightarrow> TestSuite \<Rightarrow> store \<Rightarrow> IntegrationStep
   \<Rightarrow> nat \<times> VariationWriter \<Rightarrow> nat \<times> VariationWriter" where
  "addOperation injectVariations random suite st step state =
     (case getOperationById (postmanParser suite) (step_openApiOperationId step) of
        None \<Rightarrow> state
      | Some r \<Rightarrow>
          (let pmOperation = st r;
               oaOperation = getOperationByPath (oasParser suite) (pm_pathRef pmOperation)
           in fold (addVariation injectVariations random pmOperation oaOperation)
                (variations step) state))"

record IntegrationTestWriter =
  testSuite :: TestSuite
  integrationTestFolderName :: string
  integrationTestCollection :: "item list"

text \<open>
  \<^verbatim>\<open>add\<close> (lines 24 to 56): the number of draws made and the writer after the call.
\<close>

definition add ::
  "injectVariations \<Rightarrow> random \<Rightarrow> store \<Rightarrow> IntegrationTestWriter \<Rightarrow> IntegrationTestConfig
   \<Rightarrow> nat \<Rightarrow> nat \<times> IntegrationTestWriter" where
  "add injectVariations random st this integrationTest draws =
     (case fold (addOperation injectVariations random (testSuite this) st)
             (operations integrationTest)
             (draws, newVariationWriter (it_name integrationTest)) of
        (draws', variationWriter) \<Rightarrow>
          (draws',
           this\<lparr>integrationTestCollection :=
             variationMergeToCollection variationWriter (integrationTestCollection this)\<rparr>))"

text \<open>
  The clones that a call of \<open>add\<close> makes: the request records of the folder that the
  call appends to the collection of the writer.
\<close>

fun requestsOf :: "item list \<Rightarrow> PostmanMappedOperation list" where
  "requestsOf [] = []"
| "requestsOf (RequestItem pmOperation # rest) = pmOperation # requestsOf rest"
| "requestsOf (FolderItem folderName inner # rest) = requestsOf rest"

definition lastFolder :: "item list \<Rightarrow> item list" where
  "lastFolder collection =
     (case rev collection of
        FolderItem folderName inner # rest \<Rightarrow> inner
      | _ \<Rightarrow> [])"

definition clonesOf ::
  "injectVariations \<Rightarrow> random \<Rightarrow> store \<Rightarrow> IntegrationTestWriter \<Rightarrow> IntegrationTestConfig
   \<Rightarrow> nat \<Rightarrow> PostmanMappedOperation list" where
  "clonesOf injectVariations random st this integrationTest draws =
     requestsOf (lastFolder (integrationTestCollection
       (snd (add injectVariations random st this integrationTest draws))))"

text \<open>
  The draws numbered from \<open>lo\<close> up to \<open>hi\<close> are apart when no two of them have the same
  text and none ends in a hyphen followed by another. An identifier is apart from the
  draws when it does not end in a hyphen followed by one of them.
\<close>

definition drawsApart :: "random \<Rightarrow> nat \<Rightarrow> nat \<Rightarrow> bool" where
  "drawsApart random lo hi =
     (\<forall>i \<in> {lo ..< hi}. \<forall>j \<in> {lo ..< hi}.
        i \<noteq> j \<longrightarrow> random i \<noteq> random j \<and> \<not> suffix (CHR ''-'' # random i) (random j))"

definition identifierApart :: "random \<Rightarrow> nat \<Rightarrow> nat \<Rightarrow> string \<Rightarrow> bool" where
  "identifierApart random lo hi ident =
     (\<forall>k \<in> {lo ..< hi}. \<not> suffix (CHR ''-'' # random k) ident)"

section \<open>What the rule and the contract operation ask for\<close>

text \<open>
  A check kind applies to a record under an option object when the object is present and
  the record is not in its exclusion list.
\<close>

definition allowed :: "PostmanMappedOperation \<Rightarrow> ContractTest option \<Rightarrow> bool" where
  "allowed pmOperation opt = (opt \<noteq> None \<and> \<not> inOperations pmOperation (exclusionOf opt))"

definition fires :: "ContractTestConfig \<Rightarrow> PostmanMappedOperation \<Rightarrow> string \<Rightarrow> bool" where
  "fires contractTest pmOperation kind = allowed pmOperation (checks contractTest kind)"

text \<open>
  The assertions that the content entries, the headers and the responses ask for, given
  which kinds apply. The loops of \<open>injectContractTests\<close> are compared with these lists.
\<close>

fun contentEntryTests ::
  "bool \<Rightarrow> bool \<Rightarrow> bool \<Rightarrow> string \<times> MediaTypeObject \<Rightarrow> assertion list" where
  "contentEntryTests bType bBody bSchema (contentType, cont) =
     (if contentType = [] then []
      else (if bType then [ContentTypeTest contentType] else [])
         @ (if bBody \<and> contentType = ''application/json'' then [JsonBodyTest] else [])
         @ (case mt_schema cont of
              None \<Rightarrow> []
            | Some sch \<Rightarrow> if bSchema then [JsonSchemaTest sch] else []))"

fun headerEntryTests :: "bool \<Rightarrow> string \<times> string \<Rightarrow> assertion list" where
  "headerEntryTests bHeader (headerName, h) =
     (if headerName \<noteq> [] \<and> bHeader then [HeaderTest headerName] else [])"

definition responseTests ::
  "ContractTestConfig \<Rightarrow> (string \<Rightarrow> bool) \<Rightarrow> ResponseObject \<Rightarrow> assertion list" where
  "responseTests contractTest f response =
     (if f ''statusSuccess'' then [StatusSuccessTest] else [])
   @ (case checks contractTest ''statusCode'' of
        None \<Rightarrow> []
      | Some c \<Rightarrow> if f ''statusCode'' then [StatusCodeTest (ct_code c)] else [])
   @ (case checks contractTest ''responseTime'' of
        None \<Rightarrow> []
      | Some c \<Rightarrow> if f ''responseTime'' then [ResponseTimeTest (ct_maxMs c)] else [])
   @ (case content response of
        None \<Rightarrow> []
      | Some entries \<Rightarrow>
          concat (map (contentEntryTests (f ''contentType'') (f ''jsonBody'')
                         (f ''schemaValidation'')) entries))
   @ (case headers response of
        None \<Rightarrow> []
      | Some entries \<Rightarrow> concat (map (headerEntryTests (f ''headersPresent'')) entries))"

definition expectedTests ::
  "ContractTestConfig \<Rightarrow> (string \<Rightarrow> bool) \<Rightarrow> (string \<times> ResponseObject) list
   \<Rightarrow> assertion list" where
  "expectedTests contractTest f entries =
     concat (map (\<lambda>entry. responseTests contractTest f (snd entry)) (filter eligible entries))"

text \<open>The content entries of the responses in the range that carry a content type.\<close>

definition contentEntries :: "(string \<times> ResponseObject) list \<Rightarrow> (string \<times> MediaTypeObject) list" where
  "contentEntries entries =
     concat (map (\<lambda>entry. case content (snd entry) of
                              None \<Rightarrow> []
                            | Some cs \<Rightarrow> filter (\<lambda>c. fst c \<noteq> []) cs)
                 (filter eligible entries))"

text \<open>The headers of the responses in the range that carry a name.\<close>

definition headerEntries :: "(string \<times> ResponseObject) list \<Rightarrow> (string \<times> string) list" where
  "headerEntries entries =
     concat (map (\<lambda>entry. case headers (snd entry) of
                              None \<Rightarrow> []
                            | Some hs \<Rightarrow> filter (\<lambda>h. fst h \<noteq> []) hs)
                 (filter eligible entries))"

text \<open>The names of the seven check kinds that \<open>injectContractTests\<close> reads.\<close>

definition checkKinds :: "string list" where
  "checkKinds = [''statusSuccess'', ''statusCode'', ''responseTime'', ''contentType'',
                 ''jsonBody'', ''schemaValidation'', ''headersPresent'']"

text \<open>
  The assertions of one check kind that the declared responses call for, in the order of
  the responses: one status-success, status-code and response-time assertion for every
  response in the range, one content-type assertion for every content entry, a JSON body
  assertion for every content entry named \<^verbatim>\<open>application/json\<close>, a schema assertion
  for every content entry with a schema, and one header assertion for every header.
\<close>

definition kindTests ::
  "ContractTestConfig \<Rightarrow> (string \<times> ResponseObject) list \<Rightarrow> string \<Rightarrow> assertion list" where
  "kindTests contractTest entries kind =
     (if kind = ''statusSuccess'' then
        map (\<lambda>entry. StatusSuccessTest) (filter eligible entries)
      else if kind = ''statusCode'' then
        (case checks contractTest ''statusCode'' of
           None \<Rightarrow> []
         | Some c \<Rightarrow> map (\<lambda>entry. StatusCodeTest (ct_code c)) (filter eligible entries))
      else if kind = ''responseTime'' then
        (case checks contractTest ''responseTime'' of
           None \<Rightarrow> []
         | Some c \<Rightarrow> map (\<lambda>entry. ResponseTimeTest (ct_maxMs c)) (filter eligible entries))
      else if kind = ''contentType'' then
        map (\<lambda>c. ContentTypeTest (fst c)) (contentEntries entries)
      else if kind = ''jsonBody'' then
        map (\<lambda>c. JsonBodyTest)
          (filter (\<lambda>c. fst c = ''application/json'') (contentEntries entries))
      else if kind = ''schemaValidation'' then
        concat (map (\<lambda>c. case mt_schema (snd c) of
                             None \<Rightarrow> []
                           | Some sch \<Rightarrow> [JsonSchemaTest sch])
                  (contentEntries entries))
      else if kind = ''headersPresent'' then
        map (\<lambda>h. HeaderTest (fst h)) (headerEntries entries)
      else [])"

text \<open>A rule with the exclusion list of one check kind taken away.\<close>

definition withoutExclusion :: "ContractTestConfig \<Rightarrow> string \<Rightarrow> ContractTestConfig" where
  "withoutExclusion contractTest kind =
     (case checks contractTest kind of
        None \<Rightarrow> contractTest
      | Some opt \<Rightarrow>
          contractTest\<lparr>checks :=
            (checks contractTest)(kind \<mapsto> opt\<lparr>kindExcludeForOperations := None\<rparr>)\<rparr>)"


section \<open>A small contract, two request records and a rule\<close>

definition petsResponses :: "(string \<times> ResponseObject) list" where
  "petsResponses =
     [(''200'', \<lparr>content = Some [(''application/json'', \<lparr>mt_schema = Some ''Pet''\<rparr>),
                                 (''text/plain'', \<lparr>mt_schema = None\<rparr>)],
                headers = Some [(''X-Rate-Limit'', ''integer'')]\<rparr>),
      (''201'', \<lparr>content = None, headers = None\<rparr>),
      (''404'', \<lparr>content = Some [(''application/json'', \<lparr>mt_schema = Some ''Error''\<rparr>)],
                headers = None\<rparr>)]"

definition petsOperation :: OasMappedOperation where
  "petsOperation =
     \<lparr>oa_pathRef = ''GET::/pets'', oa_schema = Some \<lparr>responses = Some petsResponses\<rparr>\<rparr>"

definition bareOperation :: OasMappedOperation where
  "bareOperation = \<lparr>oa_pathRef = ''GET::/ping'', oa_schema = Some \<lparr>responses = None\<rparr>\<rparr>"

definition opA :: PostmanMappedOperation where
  "opA = \<lparr>pm_id = Some ''opA'', pm_pathRef = ''GET::/pets'', pm_name = ''List pets'',
          pm_tests = []\<rparr>"

definition opB :: PostmanMappedOperation where
  "opB = \<lparr>pm_id = Some ''opB'', pm_pathRef = ''GET::/pets'', pm_name = ''List pets again'',
          pm_tests = [StatusCodeTest (Some 200)]\<rparr>"

definition plainCheck :: ContractTest where
  "plainCheck = \<lparr>enabled = True, kindExcludeForOperations = None, ct_code = None,
                 ct_maxMs = None\<rparr>"

definition exceptA :: ContractTest where
  "exceptA = \<lparr>enabled = True, kindExcludeForOperations = Some [''opA''], ct_code = None,
              ct_maxMs = None\<rparr>"

definition petsRule :: ContractTestConfig where
  "petsRule =
     \<lparr>openApiOperation = Some ''GET::/pets'', openApiOperationId = None,
      excludeForOperations = None,
      checks = [''statusSuccess'' \<mapsto> exceptA, ''contentType'' \<mapsto> plainCheck,
                ''jsonBody'' \<mapsto> plainCheck, ''schemaValidation'' \<mapsto> plainCheck]\<rparr>"

definition codeCheck :: ContractTest where
  "codeCheck = \<lparr>enabled = True, kindExcludeForOperations = None, ct_code = Some 200,
                 ct_maxMs = None\<rparr>"

definition timeCheck :: ContractTest where
  "timeCheck = \<lparr>enabled = True, kindExcludeForOperations = None, ct_code = None,
                 ct_maxMs = Some 300\<rparr>"

definition fullRule :: ContractTestConfig where
  "fullRule =
     \<lparr>openApiOperation = Some ''GET::/pets'', openApiOperationId = None,
      excludeForOperations = None,
      checks = [''statusSuccess'' \<mapsto> exceptA, ''statusCode'' \<mapsto> codeCheck,
                ''responseTime'' \<mapsto> timeCheck, ''contentType'' \<mapsto> plainCheck,
                ''jsonBody'' \<mapsto> plainCheck, ''schemaValidation'' \<mapsto> plainCheck,
                ''headersPresent'' \<mapsto> plainCheck]\<rparr>"

definition headerRule :: ContractTestConfig where
  "headerRule =
     \<lparr>openApiOperation = Some ''GET::/pets'', openApiOperationId = None,
      excludeForOperations = None,
      checks = [''statusSuccess'' \<mapsto> plainCheck, ''headersPresent'' \<mapsto> exceptA]\<rparr>"

definition opAnonymous :: PostmanMappedOperation where
  "opAnonymous = \<lparr>pm_id = None, pm_pathRef = ''GET::/pets'', pm_name = ''Unnamed'',
                  pm_tests = []\<rparr>"

definition petStore :: store where
  "petStore r = (if r = 0 then opA else if r = 1 then opB else opAnonymous)"

definition petParser :: PostmanParser where
  "petParser =
     \<lparr>mappedOperations = [0, 1, 2],
      getOperationsByPath = (\<lambda>path. if path = ''GET::/pets'' then [0, 1, 2] else []),
      getOperationsByIds =
        (\<lambda>ids. (if ''opA'' \<in> set ids then [0] else []) @ (if ''opB'' \<in> set ids then [1] else [])),
      getOperationById =
        (\<lambda>ident. if ident = ''opA'' then Some 0 else if ident = ''opB'' then Some 1 else None)\<rparr>"

definition petSuite :: TestSuite where
  "petSuite =
     \<lparr>oasParser =
        \<lparr>getOperationByPath = (\<lambda>path. if path = ''GET::/pets'' then Some petsOperation else None)\<rparr>,
      postmanParser = petParser,
      contractTests = None,
      contentTests = None\<rparr>"

definition exceptZ :: ContractTestConfig where
  "exceptZ =
     \<lparr>openApiOperation = Some ''GET::/pets'', openApiOperationId = Some ''opB'',
      excludeForOperations = Some [''opZ''],
      checks = [''statusSuccess'' \<mapsto> plainCheck]\<rparr>"

definition bodyRule :: ContentTestConfig where
  "bodyRule =
     \<lparr>openApiOperation = Some ''GET::/pets'', openApiOperationId = None,
      excludeForOperations = None,
      responseBodyTests = Some [''name'']\<rparr>"

text \<open>The variations that a scenario expands: those of the steps that resolve, in order.\<close>

definition expandedVariations :: "TestSuite \<Rightarrow> IntegrationStep list \<Rightarrow> Variation list" where
  "expandedVariations suite steps =
     concat (map (\<lambda>step. case getOperationById (postmanParser suite)
                                 (step_openApiOperationId step) of
                            None \<Rightarrow> []
                          | Some r \<Rightarrow> variations step) steps)"

text \<open>The identifier that line 44 gives the clone of a variation at a draw.\<close>

definition cloneId :: "random \<Rightarrow> Variation \<times> nat \<Rightarrow> string option" where
  "cloneId random p = Some (var_name (fst p) @ ''-'' @ random (snd p))"

definition keepIdentity :: injectVariations where
  "keepIdentity pmOperation oaOperation variation = testResponseStatusSuccess pmOperation"

definition sameDraw :: random where
  "sameDraw k = ''0.5''"

definition freshDraw :: random where
  "freshDraw k = ''0.'' @ replicate (Suc k) (CHR ''1'')"

definition missingField :: Variation where
  "missingField = \<lparr>var_name = ''missingField'', var_overwrites = [''remove name'']\<rparr>"

definition stepA :: IntegrationStep where
  "stepA = \<lparr>step_openApiOperationId = ''opA'', variations = [missingField]\<rparr>"

definition stepX :: IntegrationStep where
  "stepX = \<lparr>step_openApiOperationId = ''opX'', variations = [missingField]\<rparr>"

definition stepB :: IntegrationStep where
  "stepB = \<lparr>step_openApiOperationId = ''opB'', variations = [missingField]\<rparr>"

definition petScenario :: IntegrationTestConfig where
  "petScenario = \<lparr>it_name = ''Pet flow'', operations = [stepA, stepX, stepB]\<rparr>"

definition twinScenario :: IntegrationTestConfig where
  "twinScenario =
     \<lparr>it_name = ''Twins'',
      operations =
        [\<lparr>step_openApiOperationId = ''opA'', variations = [missingField, missingField]\<rparr>]\<rparr>"

definition petWriter :: IntegrationTestWriter where
  "petWriter =
     \<lparr>testSuite = petSuite, integrationTestFolderName = ''Integration tests'',
      integrationTestCollection = []\<rparr>"

section \<open>The loops append the assertions asked for\<close>

lemma inOperations_tests [simp]: "inOperations (pm\<lparr>pm_tests := t\<rparr>) ops = inOperations pm ops"
  by (simp add: inOperations_def split: option.splits)

lemma allowed_tests [simp]: "allowed (pm\<lparr>pm_tests := t\<rparr>) opt = allowed pm opt"
  by (simp add: allowed_def)

lemma write_if:
  "(if c then writeOperationTestScript pm a else pm) =
     pm\<lparr>pm_tests := pm_tests pm @ (if c then [a] else [])\<rparr>"
  by (simp add: writeOperationTestScript_def)

lemma write_if_not:
  "(if c then pm else writeOperationTestScript pm a) =
     pm\<lparr>pm_tests := pm_tests pm @ (if c then [] else [a])\<rparr>"
  by (simp add: writeOperationTestScript_def)

lemma write_case:
  "(case x of None \<Rightarrow> pm | Some s \<Rightarrow> pm\<lparr>pm_tests := pm_tests pm @ f s\<rparr>) =
     pm\<lparr>pm_tests := pm_tests pm @ (case x of None \<Rightarrow> [] | Some s \<Rightarrow> f s)\<rparr>"
  by (cases x) simp_all

lemma contentLoop_tests:
  "contentLoop a b c oa es pm =
     pm\<lparr>pm_tests := pm_tests pm @
        concat (map (contentEntryTests (allowed pm a) (allowed pm b) (allowed pm c)) es)\<rparr>"
proof (induction es arbitrary: pm)
  case Nil
  show ?case by simp
next
  case (Cons e es)
  obtain contentType cont where e: "e = (contentType, cont)" by (cases e)
  show ?case
  proof (cases "contentType = []")
    case True
    then show ?thesis unfolding e by (simp add: Cons.IH)
  next
    case False
    then show ?thesis
      unfolding e
      by (simp add: Cons.IH Let_def testResponseContentType_def testResponseJsonBody_def
          testResponseJsonSchema_def write_if write_case allowed_def conj_ac
          split del: if_split cong: if_cong option.case_cong)
  qed
qed

lemma headerLoop_tests:
  "headerLoop a oa es pm =
     pm\<lparr>pm_tests := pm_tests pm @ concat (map (headerEntryTests (allowed pm a)) es)\<rparr>"
proof (induction es arbitrary: pm)
  case Nil
  show ?case by simp
next
  case (Cons e es)
  obtain headerName h where e: "e = (headerName, h)" by (cases e)
  show ?case
  proof (cases "headerName = []")
    case True
    then show ?thesis unfolding e by (simp add: Cons.IH)
  next
    case False
    then show ?thesis
      unfolding e
      by (simp add: Cons.IH testResponseHeader_def write_if allowed_def conj_ac
          split del: if_split cong: if_cong)
  qed
qed

lemma responseBody_tests:
  "responseBody ct oa response pm =
     pm\<lparr>pm_tests := pm_tests pm @ responseTests ct (fires ct pm) response\<rparr>"
  by (simp add: responseBody_def responseTests_def fires_def Let_def contentLoop_tests
      headerLoop_tests getTestTypeFromContractTests_def
      testResponseStatusSuccess_def testResponseStatusCode_def testResponseTime_def
      write_if write_if_not write_case allowed_def exclusionOf_def conj_ac
      split del: if_split cong: if_cong option.case_cong)

lemma fires_tests [simp]: "fires ct (pm\<lparr>pm_tests := t\<rparr>) = fires ct pm"
  by (rule ext) (simp add: fires_def)

lemma responsesLoop_tests:
  "responsesLoop ct oa entries pm =
     pm\<lparr>pm_tests := pm_tests pm @ expectedTests ct (fires ct pm) entries\<rparr>"
proof (induction entries arbitrary: pm)
  case Nil
  show ?case by (simp add: expectedTests_def)
next
  case (Cons e es)
  obtain code response where e: "e = (code, response)" by (cases e)
  show ?case
    unfolding e
    by (simp add: Cons.IH responseBody_tests expectedTests_def eligible_def)
qed

lemma injected_eq:
  "injected pm oa ct =
     (case responsesOf oa of None \<Rightarrow> [] | Some entries \<Rightarrow> expectedTests ct (fires ct pm) entries)"
  by (simp add: injected_def injectContractTests_def responsesLoop_tests split: option.splits)

lemma injectContractTests_eq:
  "injectContractTests pm oa ct = pm\<lparr>pm_tests := pm_tests pm @ injected pm oa ct\<rparr>"
  by (simp add: injected_eq injectContractTests_def responsesLoop_tests split: option.splits)


lemma responsesLoop_append:
  "responsesLoop ct oa (es1 @ es2) pm = responsesLoop ct oa es2 (responsesLoop ct oa es1 pm)"
  by (induction es1 arbitrary: pm) auto

lemma responsesLoop_filter:
  "responsesLoop ct oa (filter eligible entries) pm = responsesLoop ct oa entries pm"
  by (induction entries arbitrary: pm) (auto simp: eligible_def)

lemma contentEntryTests_fires:
  "a \<in> set (contentEntryTests (f ''contentType'') (f ''jsonBody'') (f ''schemaValidation'') e)
   \<Longrightarrow> f (kindOf a)"
  by (cases e) (auto split: if_splits option.splits)

lemma headerEntryTests_fires:
  "a \<in> set (headerEntryTests (f ''headersPresent'') e) \<Longrightarrow> f (kindOf a)"
  by (cases e) (auto split: if_splits)

lemma responseTests_fires: "a \<in> set (responseTests ct f r) \<Longrightarrow> f (kindOf a)"
  by (auto simp: responseTests_def split: if_splits option.splits
      dest: contentEntryTests_fires headerEntryTests_fires)

lemma expectedTests_fires: "a \<in> set (expectedTests ct f es) \<Longrightarrow> f (kindOf a)"
  by (auto simp: expectedTests_def dest: responseTests_fires)

lemma statusSuccess_content:
  "filter (\<lambda>a. a = StatusSuccessTest) (concat (map (contentEntryTests x y z) cs)) = []"
  by (induction cs) (auto split: option.splits)

lemma statusSuccess_headers:
  "filter (\<lambda>a. a = StatusSuccessTest) (concat (map (headerEntryTests x) hs)) = []"
  by (induction hs) auto

lemma statusSuccess_response:
  "filter (\<lambda>a. a = StatusSuccessTest) (responseTests ct f r) =
     (if f ''statusSuccess'' then [StatusSuccessTest] else [])"
  by (simp add: responseTests_def statusSuccess_content statusSuccess_headers
      split: option.splits)

lemma statusSuccess_expected:
  "length (filter (\<lambda>a. a = StatusSuccessTest) (expectedTests ct f es)) =
     (if f ''statusSuccess'' then length (filter eligible es) else 0)"
  unfolding expectedTests_def
  by (induction es) (auto simp add: statusSuccess_response)

lemmas evalInt = parseInt_def readSign_def readRadix_def isStrWhiteSpace_def digitValue_def
  inRange_def eligible_def

lemma eligible_petsResponses:
  "filter eligible petsResponses = take 2 petsResponses"
  by (simp add: petsResponses_def evalInt)

lemma eligible_petsResponses_length: "length (filter eligible petsResponses) = 2"
  by (simp add: petsResponses_def evalInt)

section \<open>Claims about injectContractTests\<close>

text \<open>
  Claim C6. When the schema of the contract operation declares no responses,
  \<open>injectContractTests\<close> returns the request record it was given, unchanged; the call
  is a no-op and no error.
\<close>

theorem no_responses_unchanged:
  "responsesOf oaOperation = None \<Longrightarrow>
   injectContractTests pmOperation oaOperation contractTest = pmOperation"
  by (simp add: injectContractTests_def)

theorem no_responses_unchanged_witness:
  "responsesOf bareOperation = None \<and> injectContractTests opA bareOperation petsRule = opA"
proof -
  have h: "responsesOf bareOperation = None"
    by (simp add: responsesOf_def bareOperation_def)
  from h no_responses_unchanged [OF h, of opA petsRule] show ?thesis by simp
qed

text \<open>
  Claim C1. Let the contract operation declare responses, and let the rule carry the
  status-success check with the request record not in its exclusion list. Then the call
  appends exactly one status-success assertion for every declared response whose status
  code is in the range from 200 inclusive to 302 exclusive: the number of such assertions
  on the record grows by the number of those responses. The assertions accumulate: what
  the record holds after any number of the responses is a prefix of what it holds at the
  end. The \<open>enabled\<close> flag of the option object is not read.
\<close>

theorem status_success_once_per_eligible_response:
  assumes "responsesOf oaOperation = Some entries"
    and "checks contractTest ''statusSuccess'' = Some opt"
    and "\<not> inOperations pmOperation (kindExcludeForOperations opt)"
  shows "length (filter (\<lambda>a. a = StatusSuccessTest)
                   (pm_tests (injectContractTests pmOperation oaOperation contractTest))) =
           length (filter (\<lambda>a. a = StatusSuccessTest) (pm_tests pmOperation))
           + length (filter eligible entries)
         \<and> (\<forall>n. prefix (pm_tests (responsesLoop contractTest oaOperation (take n entries) pmOperation))
                    (pm_tests (injectContractTests pmOperation oaOperation contractTest)))"
proof -
  have f: "fires contractTest pmOperation ''statusSuccess''"
    using assms(2,3) by (simp add: fires_def allowed_def exclusionOf_def)
  have "pm_tests (injectContractTests pmOperation oaOperation contractTest) =
          pm_tests pmOperation @ expectedTests contractTest (fires contractTest pmOperation) entries"
    using assms(1) by (simp add: injectContractTests_def responsesLoop_tests)
  then have count: "length (filter (\<lambda>a. a = StatusSuccessTest)
                   (pm_tests (injectContractTests pmOperation oaOperation contractTest))) =
           length (filter (\<lambda>a. a = StatusSuccessTest) (pm_tests pmOperation))
           + length (filter eligible entries)"
    using f by (simp add: statusSuccess_expected)
  have "prefix (pm_tests (responsesLoop contractTest oaOperation (take n entries) pmOperation))
          (pm_tests (injectContractTests pmOperation oaOperation contractTest))" for n
  proof -
    have "injectContractTests pmOperation oaOperation contractTest =
            responsesLoop contractTest oaOperation (drop n entries)
              (responsesLoop contractTest oaOperation (take n entries) pmOperation)"
      using assms(1) responsesLoop_append [of contractTest oaOperation "take n entries" "drop n entries"]
      by (simp add: injectContractTests_def)
    then show ?thesis by (simp add: responsesLoop_tests)
  qed
  with count show ?thesis by blast
qed

theorem status_success_once_per_eligible_response_witness:
  "responsesOf petsOperation = Some petsResponses
   \<and> checks petsRule ''statusSuccess'' = Some exceptA
   \<and> \<not> inOperations opB (kindExcludeForOperations exceptA)
   \<and> length (filter (\<lambda>a. a = StatusSuccessTest)
              (pm_tests (injectContractTests opB petsOperation petsRule))) = 2"
proof -
  have h1: "responsesOf petsOperation = Some petsResponses"
    by (simp add: responsesOf_def petsOperation_def)
  have h2: "checks petsRule ''statusSuccess'' = Some exceptA"
    by (simp add: petsRule_def)
  have h3: "\<not> inOperations opB (kindExcludeForOperations exceptA)"
    by (simp add: inOperations_def opB_def exceptA_def)
  have h4: "length (filter (\<lambda>a. a = StatusSuccessTest) (pm_tests opB)) = 0"
    by (simp add: opB_def)
  from status_success_once_per_eligible_response [OF h1 h2 h3]
  have "length (filter (\<lambda>a. a = StatusSuccessTest)
              (pm_tests (injectContractTests opB petsOperation petsRule))) = 2"
    unfolding h4 eligible_petsResponses_length by simp
  with h1 h2 h3 show ?thesis by blast
qed

text \<open>
  Claim C2. A declared response whose status code is outside the range from 200 inclusive
  to 302 exclusive gets no assertion of any kind, whatever the rule carries: the call
  gives what the loop gives on the responses in the range alone, it returns the record
  unchanged when no response is in the range, and 404 is outside the range.
\<close>

theorem outside_range_nothing_injected:
  assumes "responsesOf oaOperation = Some entries"
  shows "injectContractTests pmOperation oaOperation contractTest =
           responsesLoop contractTest oaOperation (filter eligible entries) pmOperation
         \<and> ((\<forall>entry \<in> set entries. \<not> inRange (parseInt (fst entry)) 200 302) \<longrightarrow>
              injectContractTests pmOperation oaOperation contractTest = pmOperation)
         \<and> \<not> eligible (''404'', response)"
proof -
  have 1: "injectContractTests pmOperation oaOperation contractTest =
           responsesLoop contractTest oaOperation (filter eligible entries) pmOperation"
    using assms by (simp add: injectContractTests_def responsesLoop_filter)
  have 2: "injectContractTests pmOperation oaOperation contractTest = pmOperation"
    if "\<forall>entry \<in> set entries. \<not> inRange (parseInt (fst entry)) 200 302"
  proof -
    from that have "filter eligible entries = []" by (simp add: eligible_def)
    with 1 show ?thesis by simp
  qed
  have 3: "\<not> eligible (''404'', response)" by (simp add: evalInt)
  from 1 2 3 show ?thesis by blast
qed

theorem outside_range_nothing_injected_witness:
  "responsesOf petsOperation = Some petsResponses
   \<and> injectContractTests opB petsOperation petsRule =
       responsesLoop petsRule petsOperation (take 2 petsResponses) opB"
proof -
  have h: "responsesOf petsOperation = Some petsResponses"
    by (simp add: responsesOf_def petsOperation_def)
  from outside_range_nothing_injected [OF h, of opB petsRule] h show ?thesis
    by (simp add: eligible_petsResponses)
qed

lemma kind_content_concat:
  "filter (\<lambda>a. kindOf a = ''contentType'') (concat (map (contentEntryTests x y z) cs)) =
     (if x then map (\<lambda>c. ContentTypeTest (fst c)) (filter (\<lambda>c. fst c \<noteq> []) cs) else [])"
  by (induction cs) (auto split: option.splits)

lemma kind_body_concat:
  "filter (\<lambda>a. kindOf a = ''jsonBody'') (concat (map (contentEntryTests x y z) cs)) =
     (if y then map (\<lambda>c. JsonBodyTest)
                 (filter (\<lambda>c. fst c = ''application/json'') (filter (\<lambda>c. fst c \<noteq> []) cs))
      else [])"
  by (induction cs) (auto split: option.splits)

lemma kind_schema_concat:
  "filter (\<lambda>a. kindOf a = ''schemaValidation'') (concat (map (contentEntryTests x y z) cs)) =
     (if z then concat (map (\<lambda>c. case mt_schema (snd c) of None \<Rightarrow> [] | Some sch \<Rightarrow> [JsonSchemaTest sch])
                 (filter (\<lambda>c. fst c \<noteq> []) cs))
      else [])"
  by (induction cs) (auto split: option.splits)

lemma kind_headers_concat:
  "k \<noteq> ''headersPresent'' \<Longrightarrow>
   filter (\<lambda>a. kindOf a = k) (concat (map (headerEntryTests x) hs)) = []"
  by (induction hs) auto

lemma kind_content_response:
  "filter (\<lambda>a. kindOf a = ''contentType'') (responseTests ct f r) =
     (if f ''contentType''
      then map (\<lambda>c. ContentTypeTest (fst c))
             (case content r of None \<Rightarrow> [] | Some cs \<Rightarrow> filter (\<lambda>c. fst c \<noteq> []) cs)
      else [])"
  by (simp add: responseTests_def kind_content_concat kind_headers_concat split: option.splits)

lemma kind_body_response:
  "filter (\<lambda>a. kindOf a = ''jsonBody'') (responseTests ct f r) =
     (if f ''jsonBody''
      then map (\<lambda>c. JsonBodyTest)
             (filter (\<lambda>c. fst c = ''application/json'')
                (case content r of None \<Rightarrow> [] | Some cs \<Rightarrow> filter (\<lambda>c. fst c \<noteq> []) cs))
      else [])"
  by (simp add: responseTests_def kind_body_concat kind_headers_concat split: option.splits)

lemma kind_schema_response:
  "filter (\<lambda>a. kindOf a = ''schemaValidation'') (responseTests ct f r) =
     (if f ''schemaValidation''
      then concat (map (\<lambda>c. case mt_schema (snd c) of None \<Rightarrow> [] | Some sch \<Rightarrow> [JsonSchemaTest sch])
             (case content r of None \<Rightarrow> [] | Some cs \<Rightarrow> filter (\<lambda>c. fst c \<noteq> []) cs))
      else [])"
  by (simp add: responseTests_def kind_schema_concat kind_headers_concat split: option.splits)

lemma kind_content_expected:
  "filter (\<lambda>a. kindOf a = ''contentType'') (expectedTests ct f es) =
     (if f ''contentType'' then map (\<lambda>c. ContentTypeTest (fst c)) (contentEntries es) else [])"
  unfolding expectedTests_def contentEntries_def
  by (induction es) (simp_all add: kind_content_response)

lemma kind_body_expected:
  "filter (\<lambda>a. kindOf a = ''jsonBody'') (expectedTests ct f es) =
     (if f ''jsonBody''
      then map (\<lambda>c. JsonBodyTest) (filter (\<lambda>c. fst c = ''application/json'') (contentEntries es))
      else [])"
  unfolding expectedTests_def contentEntries_def
  by (induction es) (simp_all add: kind_body_response)

lemma kind_schema_expected:
  "filter (\<lambda>a. kindOf a = ''schemaValidation'') (expectedTests ct f es) =
     (if f ''schemaValidation''
      then concat (map (\<lambda>c. case mt_schema (snd c) of None \<Rightarrow> [] | Some sch \<Rightarrow> [JsonSchemaTest sch])
             (contentEntries es))
      else [])"
  unfolding expectedTests_def contentEntries_def
  by (induction es) (simp_all add: kind_schema_response)

text \<open>
  Claim C5. For the responses in the range, the content checks follow the content entries
  that carry a content type (an entry with an empty name declares none, line 202), in
  their order. When the content-type check applies to the record, it is written once for
  every such entry; the JSON body check is written only for the entries whose content type
  is exactly \<^verbatim>\<open>application/json\<close>; the schema validation is written only for the
  entries that declare a schema. A check applies when the rule carries it and the record
  is not in its exclusion list.
\<close>

theorem content_checks_per_content_entry:
  assumes "responsesOf oaOperation = Some entries"
  shows "filter (\<lambda>a. kindOf a = ''contentType'') (injected pmOperation oaOperation contractTest) =
           (if fires contractTest pmOperation ''contentType''
            then map (\<lambda>c. ContentTypeTest (fst c)) (contentEntries entries) else [])
       \<and> filter (\<lambda>a. kindOf a = ''jsonBody'') (injected pmOperation oaOperation contractTest) =
           (if fires contractTest pmOperation ''jsonBody''
            then map (\<lambda>c. JsonBodyTest)
                   (filter (\<lambda>c. fst c = ''application/json'') (contentEntries entries))
            else [])
       \<and> filter (\<lambda>a. kindOf a = ''schemaValidation'')
             (injected pmOperation oaOperation contractTest) =
           (if fires contractTest pmOperation ''schemaValidation''
            then concat (map (\<lambda>c. case mt_schema (snd c) of
                                       None \<Rightarrow> []
                                     | Some sch \<Rightarrow> [JsonSchemaTest sch])
                           (contentEntries entries))
            else [])"
  using assms
  by (simp only: injected_eq option.case kind_content_expected kind_body_expected
      kind_schema_expected simp_thms)

lemma contentEntries_petsResponses:
  "contentEntries petsResponses =
     [(''application/json'', \<lparr>mt_schema = Some ''Pet''\<rparr>), (''text/plain'', \<lparr>mt_schema = None\<rparr>)]"
  by (simp add: contentEntries_def petsResponses_def evalInt)

lemma fires_petsRule_opA:
  "fires petsRule opA ''contentType''" "fires petsRule opA ''jsonBody''"
  "fires petsRule opA ''schemaValidation''" "\<not> fires petsRule opA ''statusSuccess''"
  by (simp_all add: fires_def allowed_def petsRule_def plainCheck_def exceptA_def
      exclusionOf_def inOperations_def opA_def)

theorem content_checks_per_content_entry_witness:
  "responsesOf petsOperation = Some petsResponses
   \<and> filter (\<lambda>a. kindOf a = ''contentType'') (injected opA petsOperation petsRule) =
       [ContentTypeTest ''application/json'', ContentTypeTest ''text/plain'']
   \<and> filter (\<lambda>a. kindOf a = ''jsonBody'') (injected opA petsOperation petsRule) = [JsonBodyTest]
   \<and> filter (\<lambda>a. kindOf a = ''schemaValidation'') (injected opA petsOperation petsRule) =
       [JsonSchemaTest ''Pet'']"
proof -
  have h: "responsesOf petsOperation = Some petsResponses"
    by (simp add: responsesOf_def petsOperation_def)
  from content_checks_per_content_entry [OF h, of opA petsRule] h show ?thesis
    by (simp add: fires_petsRule_opA contentEntries_petsResponses)
qed

lemma checks_withoutExclusion:
  "checks (withoutExclusion ct k) k' =
     (if k' = k then map_option (\<lambda>opt. opt\<lparr>kindExcludeForOperations := None\<rparr>) (checks ct k)
      else checks ct k')"
  by (cases "checks ct k") (simp_all add: withoutExclusion_def)

lemma responseTests_withoutExclusion:
  "responseTests (withoutExclusion ct k) f r = responseTests ct f r"
proof -
  have 1: "(case checks (withoutExclusion ct k) ''statusCode'' of
              None \<Rightarrow> []
            | Some c \<Rightarrow> if f ''statusCode'' then [StatusCodeTest (ct_code c)] else []) =
           (case checks ct ''statusCode'' of
              None \<Rightarrow> []
            | Some c \<Rightarrow> if f ''statusCode'' then [StatusCodeTest (ct_code c)] else [])"
    by (cases "checks ct k") (simp_all add: checks_withoutExclusion)
  have 2: "(case checks (withoutExclusion ct k) ''responseTime'' of
              None \<Rightarrow> []
            | Some c \<Rightarrow> if f ''responseTime'' then [ResponseTimeTest (ct_maxMs c)] else []) =
           (case checks ct ''responseTime'' of
              None \<Rightarrow> []
            | Some c \<Rightarrow> if f ''responseTime'' then [ResponseTimeTest (ct_maxMs c)] else [])"
    by (cases "checks ct k") (simp_all add: checks_withoutExclusion)
  show ?thesis unfolding responseTests_def 1 2 ..
qed

lemma expectedTests_withoutExclusion:
  "expectedTests (withoutExclusion ct k) f es = expectedTests ct f es"
  by (simp add: expectedTests_def responseTests_withoutExclusion)

lemma fires_withoutExclusion:
  "fires (withoutExclusion ct k) pm k' =
     (if k' = k then checks ct k \<noteq> None else fires ct pm k')"
  by (cases "checks ct k")
     (simp_all add: checks_withoutExclusion fires_def allowed_def exclusionOf_def inOperations_def)

lemma filter_contentEntryTests_cong:
  assumes "\<And>k'. k' \<noteq> k \<Longrightarrow> f k' = g k'"
  shows "filter (\<lambda>a. kindOf a \<noteq> k)
           (contentEntryTests (f ''contentType'') (f ''jsonBody'') (f ''schemaValidation'') e) =
         filter (\<lambda>a. kindOf a \<noteq> k)
           (contentEntryTests (g ''contentType'') (g ''jsonBody'') (g ''schemaValidation'') e)"
  using assms [of "''contentType''"] assms [of "''jsonBody''"] assms [of "''schemaValidation''"]
  by (cases e) (auto split: option.splits)

lemma filter_headerEntryTests_cong:
  assumes "\<And>k'. k' \<noteq> k \<Longrightarrow> f k' = g k'"
  shows "filter (\<lambda>a. kindOf a \<noteq> k) (headerEntryTests (f ''headersPresent'') e) =
         filter (\<lambda>a. kindOf a \<noteq> k) (headerEntryTests (g ''headersPresent'') e)"
  using assms [of "''headersPresent''"]
  by (cases e) auto

lemma filter_concat_map_cong:
  "(\<And>x. filter P (F x) = filter P (G x)) \<Longrightarrow>
   filter P (concat (map F xs)) = filter P (concat (map G xs))"
  by (induction xs) simp_all

lemma filter_responseTests_cong:
  assumes "\<And>k'. k' \<noteq> k \<Longrightarrow> f k' = g k'"
  shows "filter (\<lambda>a. kindOf a \<noteq> k) (responseTests ct f r) =
         filter (\<lambda>a. kindOf a \<noteq> k) (responseTests ct g r)"
proof -
  have c: "filter (\<lambda>a. kindOf a \<noteq> k)
             (concat (map (contentEntryTests (f ''contentType'') (f ''jsonBody'')
                (f ''schemaValidation'')) cs)) =
           filter (\<lambda>a. kindOf a \<noteq> k)
             (concat (map (contentEntryTests (g ''contentType'') (g ''jsonBody'')
                (g ''schemaValidation'')) cs))" for cs
    by (rule filter_concat_map_cong) (rule filter_contentEntryTests_cong [OF assms])
  have h: "filter (\<lambda>a. kindOf a \<noteq> k) (concat (map (headerEntryTests (f ''headersPresent'')) hs)) =
           filter (\<lambda>a. kindOf a \<noteq> k) (concat (map (headerEntryTests (g ''headersPresent'')) hs))"
    for hs
    by (rule filter_concat_map_cong) (rule filter_headerEntryTests_cong [OF assms])
  have c': "filter (\<lambda>a. kindOf a \<noteq> k)
             (case content r of
                None \<Rightarrow> []
              | Some entries \<Rightarrow>
                  concat (map (contentEntryTests (f ''contentType'') (f ''jsonBody'')
                                 (f ''schemaValidation'')) entries)) =
            filter (\<lambda>a. kindOf a \<noteq> k)
             (case content r of
                None \<Rightarrow> []
              | Some entries \<Rightarrow>
                  concat (map (contentEntryTests (g ''contentType'') (g ''jsonBody'')
                                 (g ''schemaValidation'')) entries))"
    by (cases "content r") (simp_all add: c)
  have h': "filter (\<lambda>a. kindOf a \<noteq> k)
             (case headers r of
                None \<Rightarrow> []
              | Some entries \<Rightarrow> concat (map (headerEntryTests (f ''headersPresent'')) entries)) =
            filter (\<lambda>a. kindOf a \<noteq> k)
             (case headers r of
                None \<Rightarrow> []
              | Some entries \<Rightarrow> concat (map (headerEntryTests (g ''headersPresent'')) entries))"
    by (cases "headers r") (simp_all add: h)
  have s1: "filter (\<lambda>a. kindOf a \<noteq> k) (if f ''statusSuccess'' then [StatusSuccessTest] else []) =
            filter (\<lambda>a. kindOf a \<noteq> k) (if g ''statusSuccess'' then [StatusSuccessTest] else [])"
    using assms [of "''statusSuccess''"] by auto
  have s2: "filter (\<lambda>a. kindOf a \<noteq> k)
              (case x of None \<Rightarrow> []
               | Some c \<Rightarrow> if f ''statusCode'' then [StatusCodeTest (ct_code c)] else []) =
            filter (\<lambda>a. kindOf a \<noteq> k)
              (case x of None \<Rightarrow> []
               | Some c \<Rightarrow> if g ''statusCode'' then [StatusCodeTest (ct_code c)] else [])" for x
    using assms [of "''statusCode''"] by (cases x) auto
  have s3: "filter (\<lambda>a. kindOf a \<noteq> k)
              (case x of None \<Rightarrow> []
               | Some c \<Rightarrow> if f ''responseTime'' then [ResponseTimeTest (ct_maxMs c)] else []) =
            filter (\<lambda>a. kindOf a \<noteq> k)
              (case x of None \<Rightarrow> []
               | Some c \<Rightarrow> if g ''responseTime'' then [ResponseTimeTest (ct_maxMs c)] else [])" for x
    using assms [of "''responseTime''"] by (cases x) auto
  show ?thesis
    unfolding responseTests_def filter_append s1 s2 s3 c' h' ..
qed

lemma filter_expectedTests_cong:
  assumes "\<And>k'. k' \<noteq> k \<Longrightarrow> f k' = g k'"
  shows "filter (\<lambda>a. kindOf a \<noteq> k) (expectedTests ct f es) =
         filter (\<lambda>a. kindOf a \<noteq> k) (expectedTests ct g es)"
  unfolding expectedTests_def
  by (rule filter_concat_map_cong) (rule filter_responseTests_cong [OF assms])

lemma kind_not_fired:
  "\<not> f k \<Longrightarrow> filter (\<lambda>a. kindOf a = k) (expectedTests ct f es) = []"
  by (auto simp: filter_empty_conv dest: expectedTests_fires)

lemma kind_content_concat_other:
  "k \<noteq> ''contentType'' \<Longrightarrow> k \<noteq> ''jsonBody'' \<Longrightarrow> k \<noteq> ''schemaValidation'' \<Longrightarrow>
   filter (\<lambda>a. kindOf a = k) (concat (map (contentEntryTests x y z) cs)) = []"
  by (induction cs) (auto split: option.splits)

lemma kind_headers_concat_present:
  "filter (\<lambda>a. kindOf a = ''headersPresent'') (concat (map (headerEntryTests x) hs)) =
     (if x then map (\<lambda>h. HeaderTest (fst h)) (filter (\<lambda>h. fst h \<noteq> []) hs) else [])"
  by (induction hs) auto

lemma kind_success_response:
  "filter (\<lambda>a. kindOf a = ''statusSuccess'') (responseTests ct f r) =
     (if f ''statusSuccess'' then [StatusSuccessTest] else [])"
  by (simp add: responseTests_def kind_content_concat_other kind_headers_concat
      split: option.splits)

lemma kind_code_response:
  "filter (\<lambda>a. kindOf a = ''statusCode'') (responseTests ct f r) =
     (if f ''statusCode''
      then (case checks ct ''statusCode'' of None \<Rightarrow> [] | Some c \<Rightarrow> [StatusCodeTest (ct_code c)])
      else [])"
  by (simp add: responseTests_def kind_content_concat_other kind_headers_concat
      split: option.splits)

lemma kind_time_response:
  "filter (\<lambda>a. kindOf a = ''responseTime'') (responseTests ct f r) =
     (if f ''responseTime''
      then (case checks ct ''responseTime'' of None \<Rightarrow> [] | Some c \<Rightarrow> [ResponseTimeTest (ct_maxMs c)])
      else [])"
  by (simp add: responseTests_def kind_content_concat_other kind_headers_concat
      split: option.splits)

lemma kind_header_response:
  "filter (\<lambda>a. kindOf a = ''headersPresent'') (responseTests ct f r) =
     (if f ''headersPresent''
      then map (\<lambda>h. HeaderTest (fst h))
             (case headers r of None \<Rightarrow> [] | Some hs \<Rightarrow> filter (\<lambda>h. fst h \<noteq> []) hs)
      else [])"
  by (simp add: responseTests_def kind_content_concat_other kind_headers_concat_present
      split: option.splits)

lemma kind_success_expected:
  "filter (\<lambda>a. kindOf a = ''statusSuccess'') (expectedTests ct f es) =
     (if f ''statusSuccess'' then map (\<lambda>entry. StatusSuccessTest) (filter eligible es) else [])"
  unfolding expectedTests_def
  by (induction es) (simp_all add: kind_success_response)

lemma kind_code_expected:
  "filter (\<lambda>a. kindOf a = ''statusCode'') (expectedTests ct f es) =
     (if f ''statusCode''
      then (case checks ct ''statusCode'' of
              None \<Rightarrow> []
            | Some c \<Rightarrow> map (\<lambda>entry. StatusCodeTest (ct_code c)) (filter eligible es))
      else [])"
  unfolding expectedTests_def
  by (induction es) (simp_all add: kind_code_response split: option.splits)

lemma kind_time_expected:
  "filter (\<lambda>a. kindOf a = ''responseTime'') (expectedTests ct f es) =
     (if f ''responseTime''
      then (case checks ct ''responseTime'' of
              None \<Rightarrow> []
            | Some c \<Rightarrow> map (\<lambda>entry. ResponseTimeTest (ct_maxMs c)) (filter eligible es))
      else [])"
  unfolding expectedTests_def
  by (induction es) (simp_all add: kind_time_response split: option.splits)

lemma kind_header_expected:
  "filter (\<lambda>a. kindOf a = ''headersPresent'') (expectedTests ct f es) =
     (if f ''headersPresent'' then map (\<lambda>h. HeaderTest (fst h)) (headerEntries es) else [])"
  unfolding expectedTests_def headerEntries_def
  by (induction es) (simp_all add: kind_header_response)

lemma kinds_contentEntryTests:
  "a \<in> set (contentEntryTests x y z e) \<Longrightarrow>
   kindOf a = ''contentType'' \<or> kindOf a = ''jsonBody'' \<or> kindOf a = ''schemaValidation''"
  by (cases e) (auto split: if_splits option.splits)

lemma kinds_headerEntryTests:
  "a \<in> set (headerEntryTests x e) \<Longrightarrow> kindOf a = ''headersPresent''"
  by (cases e) (auto split: if_splits)

lemma kinds_content_concat:
  "a \<in> set (concat (map (contentEntryTests x y z) cs)) \<Longrightarrow> kindOf a \<in> set checkKinds"
  by (auto simp: checkKinds_def dest!: kinds_contentEntryTests)

lemma kinds_headers_concat:
  "a \<in> set (concat (map (headerEntryTests x) hs)) \<Longrightarrow> kindOf a \<in> set checkKinds"
  by (auto simp: checkKinds_def dest!: kinds_headerEntryTests)

lemma kinds_responseTests: "a \<in> set (responseTests ct f r) \<Longrightarrow> kindOf a \<in> set checkKinds"
proof -
  assume "a \<in> set (responseTests ct f r)"
  then consider
      "a \<in> set (if f ''statusSuccess'' then [StatusSuccessTest] else [])"
    | "a \<in> set (case checks ct ''statusCode'' of
                  None \<Rightarrow> []
                | Some c \<Rightarrow> if f ''statusCode'' then [StatusCodeTest (ct_code c)] else [])"
    | "a \<in> set (case checks ct ''responseTime'' of
                  None \<Rightarrow> []
                | Some c \<Rightarrow> if f ''responseTime'' then [ResponseTimeTest (ct_maxMs c)] else [])"
    | "a \<in> set (case content r of
                  None \<Rightarrow> []
                | Some entries \<Rightarrow>
                    concat (map (contentEntryTests (f ''contentType'') (f ''jsonBody'')
                                   (f ''schemaValidation'')) entries))"
    | "a \<in> set (case headers r of
                  None \<Rightarrow> []
                | Some entries \<Rightarrow> concat (map (headerEntryTests (f ''headersPresent'')) entries))"
    unfolding responseTests_def set_append Un_iff by blast
  then show ?thesis
  proof cases
    case 1 then show ?thesis by (simp add: checkKinds_def split: if_splits)
  next
    case 2 then show ?thesis
      by (cases "checks ct ''statusCode''") (simp_all add: checkKinds_def split: if_splits)
  next
    case 3 then show ?thesis
      by (cases "checks ct ''responseTime''") (simp_all add: checkKinds_def split: if_splits)
  next
    case 4 then show ?thesis
      by (cases "content r") (simp_all add: kinds_content_concat del: set_concat)
  next
    case 5 then show ?thesis
      by (cases "headers r") (simp_all add: kinds_headers_concat del: set_concat)
  qed
qed

lemma kinds_expectedTests: "a \<in> set (expectedTests ct f es) \<Longrightarrow> kindOf a \<in> set checkKinds"
  by (auto simp: expectedTests_def dest: kinds_responseTests)

lemma kind_expected:
  "filter (\<lambda>a. kindOf a = k) (expectedTests ct f es) = (if f k then kindTests ct es k else [])"
proof (cases "k \<in> set checkKinds")
  case True
  then have d: "k = ''statusSuccess'' \<or> k = ''statusCode'' \<or> k = ''responseTime''
      \<or> k = ''contentType'' \<or> k = ''jsonBody'' \<or> k = ''schemaValidation''
      \<or> k = ''headersPresent''"
    by (simp only: checkKinds_def list.set insert_iff empty_iff simp_thms)
  show ?thesis
    using d
    apply (elim disjE)
    subgoal by (simp add: kindTests_def kind_success_expected)
    subgoal by (simp add: kindTests_def kind_code_expected)
    subgoal by (simp add: kindTests_def kind_time_expected)
    subgoal by (simp add: kindTests_def kind_content_expected)
    subgoal by (simp add: kindTests_def kind_body_expected)
    subgoal by (simp add: kindTests_def kind_schema_expected)
    subgoal by (simp add: kindTests_def kind_header_expected)
    done
next
  case False
  then have "filter (\<lambda>a. kindOf a = k) (expectedTests ct f es) = []"
    by (auto simp: filter_empty_conv dest: kinds_expectedTests)
  moreover from False have "kindTests ct es k = []"
    by (simp add: kindTests_def checkKinds_def)
  ultimately show ?thesis by simp
qed

lemma injected_kind:
  assumes "responsesOf oa = Some entries"
  shows "filter (\<lambda>a. kindOf a = k) (injected pm oa ct) =
           (case checks ct k of
              None \<Rightarrow> []
            | Some c \<Rightarrow>
                if inOperations pm (kindExcludeForOperations c) then []
                else kindTests ct entries k)"
  using assms
  by (cases "checks ct k")
     (simp_all add: injected_eq kind_expected fires_def allowed_def exclusionOf_def)

text \<open>
  Claim C4. The exclusion lists of the check kinds are evaluated one by one. Let the
  contract operation declare responses, and let a check kind of the rule carry an
  exclusion list that holds the identifier of record A and neither the identifier nor the
  path reference of record B. Then the call appends no assertion of that kind to A. Of
  every other kind it appends to A what the declared responses call for, when the rule
  carries that kind and A is not in the exclusion list of that kind, and nothing of it
  otherwise. And it appends to B the assertions of the excluded kind that the declared
  responses call for. Moreover the assertions of the other kinds on A, in their order, and
  all the assertions on B are those that the call appends when the kind has no exclusion
  list.
\<close>

theorem exclusion_per_check_kind:
  assumes "responsesOf oaOperation = Some entries"
    and "checks contractTest kind = Some opt"
    and "kindExcludeForOperations opt = Some excluded"
    and "pm_id pmA = Some ident"
    and "ident \<in> set excluded"
    and "\<not> inOperations pmB (Some excluded)"
  shows "filter (\<lambda>a. kindOf a = kind) (injected pmA oaOperation contractTest) = []
       \<and> (\<forall>k. k \<noteq> kind \<longrightarrow>
            filter (\<lambda>a. kindOf a = k) (injected pmA oaOperation contractTest) =
              (case checks contractTest k of
                 None \<Rightarrow> []
               | Some c \<Rightarrow>
                   if inOperations pmA (kindExcludeForOperations c) then []
                   else kindTests contractTest entries k))
       \<and> filter (\<lambda>a. kindOf a = kind) (injected pmB oaOperation contractTest) =
           kindTests contractTest entries kind
       \<and> filter (\<lambda>a. kindOf a \<noteq> kind) (injected pmA oaOperation contractTest) =
           filter (\<lambda>a. kindOf a \<noteq> kind)
             (injected pmA oaOperation (withoutExclusion contractTest kind))
       \<and> injected pmB oaOperation contractTest =
           injected pmB oaOperation (withoutExclusion contractTest kind)"
proof -
  have inA: "inOperations pmA (kindExcludeForOperations opt)"
    using assms(3-5) by (simp add: inOperations_def)
  have 1: "filter (\<lambda>a. kindOf a = kind) (injected pmA oaOperation contractTest) = []"
    using injected_kind [OF assms(1), of kind pmA contractTest] assms(2) inA by simp
  have 2: "\<forall>k. k \<noteq> kind \<longrightarrow>
            filter (\<lambda>a. kindOf a = k) (injected pmA oaOperation contractTest) =
              (case checks contractTest k of
                 None \<Rightarrow> []
               | Some c \<Rightarrow>
                   if inOperations pmA (kindExcludeForOperations c) then []
                   else kindTests contractTest entries k)"
  proof (intro allI impI)
    fix k
    show "filter (\<lambda>a. kindOf a = k) (injected pmA oaOperation contractTest) =
              (case checks contractTest k of
                 None \<Rightarrow> []
               | Some c \<Rightarrow>
                   if inOperations pmA (kindExcludeForOperations c) then []
                   else kindTests contractTest entries k)"
      by (rule injected_kind [OF assms(1)])
  qed
  have 3: "filter (\<lambda>a. kindOf a = kind) (injected pmB oaOperation contractTest) =
           kindTests contractTest entries kind"
    using injected_kind [OF assms(1), of kind pmB contractTest] assms(2,3,6) by simp
  have yesB: "fires contractTest pmB kind"
    using assms(2,3,6) by (simp add: fires_def allowed_def exclusionOf_def)
  have offA: "fires contractTest pmA k' = fires (withoutExclusion contractTest kind) pmA k'"
    if "k' \<noteq> kind" for k'
    using that by (simp add: fires_withoutExclusion)
  have 4: "filter (\<lambda>a. kindOf a \<noteq> kind) (injected pmA oaOperation contractTest) =
           filter (\<lambda>a. kindOf a \<noteq> kind)
             (injected pmA oaOperation (withoutExclusion contractTest kind))"
    using filter_expectedTests_cong [of kind "fires contractTest pmA"
        "fires (withoutExclusion contractTest kind) pmA" contractTest] offA
    by (simp add: injected_eq expectedTests_withoutExclusion split: option.splits)
  have sameB: "fires (withoutExclusion contractTest kind) pmB = fires contractTest pmB"
    using yesB assms(2) by (intro ext) (auto simp: fires_withoutExclusion)
  have 5: "injected pmB oaOperation contractTest =
           injected pmB oaOperation (withoutExclusion contractTest kind)"
    by (simp add: injected_eq expectedTests_withoutExclusion sameB split: option.splits)
  from 1 2 3 4 5 show ?thesis by (intro conjI)
qed

lemma headerEntries_petsResponses:
  "headerEntries petsResponses = [(''X-Rate-Limit'', ''integer'')]"
  by (simp add: headerEntries_def petsResponses_def evalInt)

lemma eligible_petsResponses_map:
  "map (\<lambda>entry. x) (filter eligible petsResponses) = [x, x]"
  by (simp add: petsResponses_def evalInt)

lemma kindTests_pets:
  "kindTests ct petsResponses ''statusSuccess'' = [StatusSuccessTest, StatusSuccessTest]"
  "kindTests ct petsResponses ''headersPresent'' = [HeaderTest ''X-Rate-Limit'']"
  by (simp_all add: kindTests_def headerEntries_petsResponses eligible_petsResponses_map)

lemma injected_opA_fullRule:
  "injected opA petsOperation fullRule =
     [StatusCodeTest (Some 200), ResponseTimeTest (Some 300),
      ContentTypeTest ''application/json'', JsonBodyTest, JsonSchemaTest ''Pet'',
      ContentTypeTest ''text/plain'', HeaderTest ''X-Rate-Limit'',
      StatusCodeTest (Some 200), ResponseTimeTest (Some 300)]"
proof -
  have f: "\<not> fires fullRule opA ''statusSuccess''" "fires fullRule opA ''statusCode''"
    "fires fullRule opA ''responseTime''" "fires fullRule opA ''contentType''"
    "fires fullRule opA ''jsonBody''" "fires fullRule opA ''schemaValidation''"
    "fires fullRule opA ''headersPresent''"
    by (simp_all add: fires_def allowed_def fullRule_def plainCheck_def exceptA_def codeCheck_def
        timeCheck_def exclusionOf_def inOperations_def opA_def)
  have c: "checks fullRule ''statusCode'' = Some codeCheck"
    "checks fullRule ''responseTime'' = Some timeCheck"
    by (simp_all add: fullRule_def)
  show ?thesis
    by (simp add: injected_eq responsesOf_def petsOperation_def expectedTests_def
        petsResponses_def evalInt responseTests_def f c codeCheck_def timeCheck_def)
qed

theorem exclusion_per_check_kind_witness:
  "responsesOf petsOperation = Some petsResponses
   \<and> checks fullRule ''statusSuccess'' = Some exceptA
   \<and> kindExcludeForOperations exceptA = Some [''opA'']
   \<and> pm_id opA = Some ''opA''
   \<and> ''opA'' \<in> set [''opA'']
   \<and> \<not> inOperations opB (Some [''opA''])
   \<and> filter (\<lambda>a. kindOf a = ''statusSuccess'') (injected opA petsOperation fullRule) = []
   \<and> filter (\<lambda>a. kindOf a = ''headersPresent'') (injected opA petsOperation fullRule) =
       [HeaderTest ''X-Rate-Limit'']
   \<and> filter (\<lambda>a. kindOf a = ''statusSuccess'') (injected opB petsOperation fullRule) =
       [StatusSuccessTest, StatusSuccessTest]
   \<and> injected opA petsOperation fullRule =
       [StatusCodeTest (Some 200), ResponseTimeTest (Some 300),
        ContentTypeTest ''application/json'', JsonBodyTest, JsonSchemaTest ''Pet'',
        ContentTypeTest ''text/plain'', HeaderTest ''X-Rate-Limit'',
        StatusCodeTest (Some 200), ResponseTimeTest (Some 300)]
   \<and> checks headerRule ''headersPresent'' = Some exceptA
   \<and> filter (\<lambda>a. kindOf a = ''headersPresent'') (injected opA petsOperation headerRule) = []
   \<and> filter (\<lambda>a. kindOf a = ''statusSuccess'') (injected opA petsOperation headerRule) =
       [StatusSuccessTest, StatusSuccessTest]
   \<and> filter (\<lambda>a. kindOf a = ''headersPresent'') (injected opB petsOperation headerRule) =
       [HeaderTest ''X-Rate-Limit'']"
proof -
  have r: "responsesOf petsOperation = Some petsResponses"
    by (simp add: responsesOf_def petsOperation_def)
  have h1: "checks fullRule ''statusSuccess'' = Some exceptA" by (simp add: fullRule_def)
  have g1: "checks headerRule ''headersPresent'' = Some exceptA" by (simp add: headerRule_def)
  have h2: "kindExcludeForOperations exceptA = Some [''opA'']" by (simp add: exceptA_def)
  have h3: "pm_id opA = Some ''opA''" by (simp add: opA_def)
  have h4: "''opA'' \<in> set [''opA'']" by simp
  have h5: "\<not> inOperations opB (Some [''opA''])" by (simp add: inOperations_def opB_def)
  have nA: "\<not> inOperations opA (kindExcludeForOperations plainCheck)"
    by (simp add: inOperations_def plainCheck_def)
  note t = exclusion_per_check_kind [OF r h1 h2 h3 h4 h5]
  note u = exclusion_per_check_kind [OF r g1 h2 h3 h4 h5]
  note a1 = t [THEN conjunct1]
  note t2 = t [THEN conjunct2, THEN conjunct1, rule_format]
  note t3 = t [THEN conjunct2, THEN conjunct2, THEN conjunct1]
  note b1 = u [THEN conjunct1]
  note u2 = u [THEN conjunct2, THEN conjunct1, rule_format]
  note u3 = u [THEN conjunct2, THEN conjunct2, THEN conjunct1]
  have a3: "filter (\<lambda>a. kindOf a = ''statusSuccess'') (injected opB petsOperation fullRule) =
      [StatusSuccessTest, StatusSuccessTest]"
    using t3 by (simp only: kindTests_pets)
  have ne: "''headersPresent'' \<noteq> ''statusSuccess''" "''statusSuccess'' \<noteq> ''headersPresent''"
    by simp_all
  have cf: "checks fullRule ''headersPresent'' = Some plainCheck" by (simp add: fullRule_def)
  have ch: "checks headerRule ''statusSuccess'' = Some plainCheck" by (simp add: headerRule_def)
  have a2: "filter (\<lambda>a. kindOf a = ''headersPresent'') (injected opA petsOperation fullRule) =
      [HeaderTest ''X-Rate-Limit'']"
    using t2 [OF ne(1)] nA by (simp only: cf option.case if_False kindTests_pets)
  have b3: "filter (\<lambda>a. kindOf a = ''headersPresent'') (injected opB petsOperation headerRule) =
      [HeaderTest ''X-Rate-Limit'']"
    using u3 by (simp only: kindTests_pets)
  have b2: "filter (\<lambda>a. kindOf a = ''statusSuccess'') (injected opA petsOperation headerRule) =
      [StatusSuccessTest, StatusSuccessTest]"
    using u2 [OF ne(2)] nA by (simp only: ch option.case if_False kindTests_pets)
  from r h1 h2 h3 h4 h5 a1 a2 a3 injected_opA_fullRule g1 b1 b2 b3 show ?thesis
    by (intro conjI)
qed

section \<open>Claims about the operations of a rule and the passes\<close>

lemma fold_contractTestOperation_other:
  "r \<notin> set ops \<Longrightarrow> fold (contractTestOperation this oa ct) ops st r = st r"
  by (induction ops arbitrary: st) (auto simp: contractTestOperation_def split: option.splits)

lemma fold_contentTestOperation_other:
  "r \<notin> set ops \<Longrightarrow> fold (contentTestOperation ct) ops st r = st r"
  by (induction ops arbitrary: st) (auto simp: contentTestOperation_def split: option.splits)


lemma getOperationsFromSetting_exceptZ:
  "getOperationsFromSetting petSuite petStore exceptZ = [0, 1]"
  by (simp add: getOperationsFromSetting_def referencedOperations_def keptByExclusion_def
      truthyString_def exceptZ_def petSuite_def petParser_def petStore_def opA_def opB_def
      opAnonymous_def)


text \<open>
  Claim C9. When the rule carries an exclusion list, \<open>getOperationsFromSetting\<close> drops
  every record whose identifier is missing or empty, also when neither the identifier nor
  the path reference of the record is in the list. The pass of a contract test rule and
  the pass of a content test rule over the records of the rule then leave such a record
  as it was. The list need not be non-empty.
\<close>

theorem falsy_identifier_dropped:
  assumes "truthyString (pm_id (st r)) = None"
  shows "(excludeForOperations settings = Some excluded \<longrightarrow>
            r \<notin> set (getOperationsFromSetting this st settings))
       \<and> (excludeForOperations contractTest = Some excluded \<longrightarrow>
            contractTestRule this None oaOperation contractTest st r = st r)
       \<and> (excludeForOperations contentTest = Some excluded \<longrightarrow>
            contentTestRule this None contentTest st r = st r)"
proof -
  have 1: "excludeForOperations settings = Some excluded \<longrightarrow>
            r \<notin> set (getOperationsFromSetting this st settings)"
    using assms by (simp add: getOperationsFromSetting_def keptByExclusion_def)
  have 2: "excludeForOperations contractTest = Some excluded \<longrightarrow>
            contractTestRule this None oaOperation contractTest st r = st r"
    using assms
    by (simp add: contractTestRule_def fold_contractTestOperation_other
        getOperationsFromSetting_def keptByExclusion_def)
  have 3: "excludeForOperations contentTest = Some excluded \<longrightarrow>
            contentTestRule this None contentTest st r = st r"
    using assms
    by (simp add: contentTestRule_def fold_contentTestOperation_other
        getOperationsFromSetting_def keptByExclusion_def)
  from 1 2 3 show ?thesis by blast
qed

lemma injectContractTests_opA_exceptZ:
  "pm_tests (injectContractTests opA petsOperation exceptZ) = [StatusSuccessTest, StatusSuccessTest]"
proof -
  have f: "fires exceptZ opA ''statusSuccess''" "\<not> fires exceptZ opA ''statusCode''"
    "\<not> fires exceptZ opA ''responseTime''" "\<not> fires exceptZ opA ''contentType''"
    "\<not> fires exceptZ opA ''jsonBody''" "\<not> fires exceptZ opA ''schemaValidation''"
    "\<not> fires exceptZ opA ''headersPresent''"
    by (simp_all add: fires_def allowed_def exceptZ_def plainCheck_def exclusionOf_def
        inOperations_def)
  have c: "checks exceptZ ''statusCode'' = None" "checks exceptZ ''responseTime'' = None"
    by (simp_all add: exceptZ_def)
  have "injected opA petsOperation exceptZ = [StatusSuccessTest, StatusSuccessTest]"
    by (simp add: injected_eq responsesOf_def petsOperation_def expectedTests_def
        petsResponses_def evalInt responseTests_def f c)
  then show ?thesis
    using injectContractTests_eq [of opA petsOperation exceptZ] by (simp add: opA_def)
qed

theorem falsy_identifier_dropped_witness:
  "truthyString (pm_id (petStore 2)) = None
   \<and> excludeForOperations exceptZ = Some [''opZ'']
   \<and> pm_pathRef (petStore 2) \<notin> set [''opZ'']
   \<and> 2 \<in> set (referencedOperations petSuite exceptZ)
   \<and> 2 \<notin> set (getOperationsFromSetting petSuite petStore exceptZ)
   \<and> contractTestRule petSuite None None exceptZ petStore 2 = petStore 2
   \<and> pm_tests (contractTestRule petSuite None None exceptZ petStore 0) =
       [StatusSuccessTest, StatusSuccessTest]"
proof -
  have h: "truthyString (pm_id (petStore 2)) = None"
    by (simp add: truthyString_def petStore_def opAnonymous_def)
  have e: "excludeForOperations exceptZ = Some [''opZ'']" by (simp add: exceptZ_def)
  have p: "pm_pathRef (petStore 2) \<notin> set [''opZ'']"
    by (simp add: petStore_def opAnonymous_def)
  have r: "2 \<in> set (referencedOperations petSuite exceptZ)"
    by (simp add: referencedOperations_def truthyString_def exceptZ_def petSuite_def petParser_def)
  note t = falsy_identifier_dropped [where st = petStore and r = 2 and settings = exceptZ
      and excluded = "[''opZ'']" and this = petSuite and contractTest = exceptZ
      and oaOperation = None, OF h]
  from t e have a: "2 \<notin> set (getOperationsFromSetting petSuite petStore exceptZ)" by blast
  from t e have b: "contractTestRule petSuite None None exceptZ petStore 2 = petStore 2" by blast
  have o: "getOperationByPath (oasParser petSuite) (pm_pathRef opA) = Some petsOperation"
    "getOperationByPath (oasParser petSuite) (pm_pathRef opB) = Some petsOperation"
    by (simp_all add: petSuite_def opA_def opB_def)
  have s0: "petStore 0 = opA" "petStore (Suc 0) = opB" by (simp_all add: petStore_def)
  have c: "pm_tests (contractTestRule petSuite None None exceptZ petStore 0) =
       [StatusSuccessTest, StatusSuccessTest]"
    by (simp add: contractTestRule_def getOperationsFromSetting_exceptZ contractTestOperation_def
        s0 o injectContractTests_opA_exceptZ)
  from h e p r a b c show ?thesis by blast
qed

text \<open>
  Claim C10. When the test suite holds no content tests, \<open>injectContentTests\<close> returns
  the mapped operations of the parser and changes no record, whatever records and whatever
  content test rules the caller gives: the rules of the caller are not read.
\<close>

theorem caller_content_tests_ignored:
  "contentTests this = None \<Longrightarrow>
   injectContentTests this pmOperations contentTestsArg st =
     (mappedOperations (postmanParser this), st)"
  by (simp add: injectContentTests_def)

theorem caller_content_tests_ignored_witness:
  "contentTests petSuite = None
   \<and> injectContentTests petSuite (Some [0]) (Some [bodyRule]) petStore = ([0, 1, 2], petStore)"
proof -
  have h: "contentTests petSuite = None" by (simp add: petSuite_def)
  from caller_content_tests_ignored [OF h, of "Some [0]" "Some [bodyRule]" petStore] h
  show ?thesis by (simp add: petSuite_def petParser_def)
qed

section \<open>Claims about IntegrationTestWriter.add\<close>

lemma addOperation_unresolved:
  "getOperationById (postmanParser suite) (step_openApiOperationId step) = None \<Longrightarrow>
   addOperation iv random suite st step state = state"
  by (simp add: addOperation_def)

text \<open>
  Claim C7. In \<open>add\<close>, a step whose operation identifier resolves to no request record
  is skipped without a word: the step leaves the draws made and the folder as they were,
  and the call gives what it gives on the scenario without that step, so the steps before
  and after it are handled as if it were not there. The call always returns.
\<close>

theorem unresolved_step_skipped:
  assumes "getOperationById (postmanParser (testSuite this)) (step_openApiOperationId step) = None"
  shows "addOperation iv random (testSuite this) st step state = state
       \<and> add iv random st this (integrationTest\<lparr>operations := before @ step # after\<rparr>) draws =
           add iv random st this (integrationTest\<lparr>operations := before @ after\<rparr>) draws"
  using assms by (simp add: add_def addOperation_unresolved)

lemma requestsOf_append: "requestsOf (xs @ ys) = requestsOf xs @ requestsOf ys"
  by (induction xs rule: requestsOf.induct) simp_all

lemma upt_shift: "[k ..< k + Suc n] = k # [Suc k ..< Suc k + n]"
  by (subst upt_rec) simp

lemma addVariation_pair:
  "addVariation iv random pm oa v (k, vw) =
     (Suc k, addToFolder (iv (clone pm (var_name v @ ''-'' @ random k) (var_name v)) oa v) vw)"
  by (simp add: addVariation_def Let_def)

lemma fold_addVariation_ids:
  assumes keep: "\<And>pm oa v. pm_id (iv pm oa v) = pm_id pm"
  shows "fst (fold (addVariation iv random pm oa) vs (k, vw)) = k + length vs
       \<and> map pm_id (requestsOf (variationFolder
             (snd (fold (addVariation iv random pm oa) vs (k, vw))))) =
           map pm_id (requestsOf (variationFolder vw)) @
           map (cloneId random) (zip vs [k ..< k + length vs])"
proof (induction vs arbitrary: k vw)
  case Nil
  show ?case by simp
next
  case (Cons v vs)
  let ?vw = "addToFolder (iv (clone pm (var_name v @ ''-'' @ random k) (var_name v)) oa v) vw"
  have i: "map pm_id (requestsOf (variationFolder ?vw)) =
             map pm_id (requestsOf (variationFolder vw)) @ [cloneId random (v, k)]"
    by (simp add: addToFolder_def requestsOf_append keep clone_def cloneId_def)
  have f: "fold (addVariation iv random pm oa) (v # vs) (k, vw) =
             fold (addVariation iv random pm oa) vs (Suc k, ?vw)"
    by (simp add: addVariation_pair)
  have "[k ..< k + length (v # vs)] = k # [Suc k ..< Suc k + length vs]"
    using upt_shift [of k "length vs"] by simp
  then have z: "zip (v # vs) [k ..< k + length (v # vs)] =
                  (v, k) # zip vs [Suc k ..< Suc k + length vs]"
    by (simp only: zip_Cons_Cons)
  show ?case
    unfolding f z using Cons.IH [of "Suc k" ?vw] i by (simp del: upt_Suc)
qed

lemma zip_upt_append:
  "zip (xs @ ys) [k ..< k + length (xs @ ys)] =
     zip xs [k ..< k + length xs] @ zip ys [k + length xs ..< k + length xs + length ys]"
proof -
  have "[k ..< k + length (xs @ ys)] =
          [k ..< k + length xs] @ [k + length xs ..< k + length xs + length ys]"
    using upt_add_eq_append [of k "k + length xs" "length ys"] by (simp add: add.assoc)
  then show ?thesis by (simp only: zip_append length_upt add_diff_cancel_left')
qed

lemma fold_addOperation_ids:
  assumes keep: "\<And>pm oa v. pm_id (iv pm oa v) = pm_id pm"
  shows "fst (fold (addOperation iv random suite st) steps (k, vw)) =
           k + length (expandedVariations suite steps)
       \<and> map pm_id (requestsOf (variationFolder
             (snd (fold (addOperation iv random suite st) steps (k, vw))))) =
           map pm_id (requestsOf (variationFolder vw)) @
           map (cloneId random)
             (zip (expandedVariations suite steps)
                [k ..< k + length (expandedVariations suite steps)])"
proof (induction steps arbitrary: k vw)
  case Nil
  show ?case by (simp add: expandedVariations_def)
next
  case (Cons step steps)
  show ?case
  proof (cases "getOperationById (postmanParser suite) (step_openApiOperationId step)")
    case None
    then have e: "expandedVariations suite (step # steps) = expandedVariations suite steps"
      by (simp add: expandedVariations_def)
    have f: "fold (addOperation iv random suite st) (step # steps) (k, vw) =
             fold (addOperation iv random suite st) steps (k, vw)"
      using None by (simp add: addOperation_def)
    show ?thesis unfolding e f by (rule Cons.IH)
  next
    case (Some r)
    let ?vs = "variations step"
    let ?rest = "expandedVariations suite steps"
    let ?mid = "fold (addVariation iv random (st r)
                   (getOperationByPath (oasParser suite) (pm_pathRef (st r)))) ?vs (k, vw)"
    have e: "expandedVariations suite (step # steps) = ?vs @ ?rest"
      using Some by (simp add: expandedVariations_def)
    have a: "addOperation iv random suite st step (k, vw) = ?mid"
      using Some by (simp add: addOperation_def Let_def)
    note m = fold_addVariation_ids [where iv = iv and random = random and pm = "st r"
        and oa = "getOperationByPath (oasParser suite) (pm_pathRef (st r))" and vs = ?vs
        and k = k and vw = vw, OF keep]
    obtain k' vw' where p: "?mid = (k', vw')" by (cases ?mid)
    from m p have k': "k' = k + length ?vs"
      and i: "map pm_id (requestsOf (variationFolder vw')) =
               map pm_id (requestsOf (variationFolder vw)) @
               map (cloneId random) (zip ?vs [k ..< k + length ?vs])"
      by simp_all
    have f: "fold (addOperation iv random suite st) (step # steps) (k, vw) =
             fold (addOperation iv random suite st) steps (k + length ?vs, vw')"
      using a p k' by simp
    note ih = Cons.IH [of "k + length ?vs" vw']
    show ?thesis
      unfolding e f zip_upt_append
      using ih i by simp
  qed
qed

lemma lastFolder_merge: "lastFolder (variationMergeToCollection vw collection) = variationFolder vw"
  by (simp add: lastFolder_def variationMergeToCollection_def)

lemma clonesOf_fold:
  "clonesOf iv random st this scenario draws =
     requestsOf (variationFolder (snd
       (fold (addOperation iv random (testSuite this) st) (operations scenario)
          (draws, newVariationWriter (it_name scenario)))))"
  by (simp add: clonesOf_def add_def lastFolder_merge split: prod.splits)

lemma clonesOf_ids:
  assumes "\<And>pm oa v. pm_id (iv pm oa v) = pm_id pm"
  shows "map pm_id (clonesOf iv random st this scenario draws) =
           map (cloneId random)
             (zip (expandedVariations (testSuite this) (operations scenario))
                [draws ..< draws + length (expandedVariations (testSuite this) (operations scenario))])"
  using fold_addOperation_ids [where iv = iv and random = random and suite = "testSuite this"
      and st = st and steps = "operations scenario" and k = draws
      and vw = "newVariationWriter (it_name scenario)", OF assms]
  by (simp add: clonesOf_fold newVariationWriter_def)

lemma name_draw_eq:
  assumes "n1 @ CHR ''-'' # d1 = n2 @ CHR ''-'' # d2" and "d1 \<noteq> d2"
  shows "suffix (CHR ''-'' # d1) d2 \<or> suffix (CHR ''-'' # d2) d1"
proof -
  from assms(1) obtain us where
    "n1 = n2 @ us \<and> us @ CHR ''-'' # d1 = CHR ''-'' # d2
     \<or> n1 @ us = n2 \<and> CHR ''-'' # d1 = us @ CHR ''-'' # d2"
    unfolding append_eq_append_conv2 by blast
  then show ?thesis
  proof
    assume a: "n1 = n2 @ us \<and> us @ CHR ''-'' # d1 = CHR ''-'' # d2"
    show ?thesis
    proof (cases us)
      case Nil
      with a assms(2) show ?thesis by simp
    next
      case (Cons u us')
      with a have "d2 = us' @ CHR ''-'' # d1" by simp
      then show ?thesis by (auto simp: suffix_def)
    qed
  next
    assume a: "n1 @ us = n2 \<and> CHR ''-'' # d1 = us @ CHR ''-'' # d2"
    show ?thesis
    proof (cases us)
      case Nil
      with a assms(2) show ?thesis by simp
    next
      case (Cons u us')
      with a have "d1 = us' @ CHR ''-'' # d2" by simp
      then show ?thesis by (auto simp: suffix_def)
    qed
  qed
qed

lemma zip_same_index:
  assumes "distinct ys" and "(a, i) \<in> set (zip xs ys)" and "(b, i) \<in> set (zip xs ys)"
  shows "a = b"
proof -
  from assms(2) obtain n where n: "n < length xs" "n < length ys" "xs ! n = a" "ys ! n = i"
    by (auto simp: in_set_zip)
  from assms(3) obtain m where m: "m < length xs" "m < length ys" "xs ! m = b" "ys ! m = i"
    by (auto simp: in_set_zip)
  from n(4) m(4) have "ys ! n = ys ! m" by simp
  with assms(1) n(2) m(2) have "n = m" by (simp add: nth_eq_iff_index_eq)
  with n(3) m(3) show ?thesis by simp
qed

lemma distinct_cloneIds:
  assumes "drawsApart random lo (lo + length vs)"
  shows "distinct (map (cloneId random) (zip vs [lo ..< lo + length vs]))"
proof -
  let ?zs = "zip vs [lo ..< lo + length vs]"
  have d: "distinct ?zs" by (rule distinct_zipI2) simp
  have "inj_on (cloneId random) (set ?zs)"
  proof (rule inj_onI)
    fix p q
    assume p: "p \<in> set ?zs" and q: "q \<in> set ?zs" and e: "cloneId random p = cloneId random q"
    obtain v i where pv: "p = (v, i)" by (cases p)
    obtain w j where qw: "q = (w, j)" by (cases q)
    from p pv have i: "i \<in> {lo ..< lo + length vs}" by (auto dest: set_zip_rightD)
    from q qw have j: "j \<in> {lo ..< lo + length vs}" by (auto dest: set_zip_rightD)
    from e pv qw have eq: "var_name v @ CHR ''-'' # random i = var_name w @ CHR ''-'' # random j"
      by (simp add: cloneId_def)
    have "i = j"
    proof (rule ccontr)
      assume ne: "i \<noteq> j"
      with assms i j have r: "random i \<noteq> random j"
        and s1: "\<not> suffix (CHR ''-'' # random i) (random j)"
        by (auto simp: drawsApart_def)
      from ne assms i j have s2: "\<not> suffix (CHR ''-'' # random j) (random i)"
        by (auto simp: drawsApart_def)
      from name_draw_eq [OF eq r] s1 s2 show False by blast
    qed
    with p q pv qw have "v = w" using zip_same_index [of "[lo ..< lo + length vs]" v i vs w]
      by simp
    with \<open>i = j\<close> pv qw show "p = q" by simp
  qed
  with d show ?thesis by (simp add: distinct_map)
qed

lemma resolve_pets:
  "getOperationById (postmanParser (testSuite petWriter)) (step_openApiOperationId stepA) = Some 0"
  "getOperationById (postmanParser (testSuite petWriter)) (step_openApiOperationId stepX) = None"
  "getOperationById (postmanParser (testSuite petWriter)) (step_openApiOperationId stepB) = Some 1"
  by (simp_all add: petWriter_def petSuite_def petParser_def stepA_def stepX_def stepB_def)

lemma keepIdentity_id: "pm_id (keepIdentity pm oa v) = pm_id pm"
  by (simp add: keepIdentity_def testResponseStatusSuccess_def writeOperationTestScript_def)

lemma expanded_petScenario:
  "expandedVariations (testSuite petWriter) (operations petScenario) = [missingField, missingField]"
  using resolve_pets
  by (simp add: expandedVariations_def petScenario_def stepA_def stepB_def stepX_def)

lemma expanded_twinScenario:
  "expandedVariations (testSuite petWriter) (operations twinScenario) = [missingField, missingField]"
  by (simp add: expandedVariations_def twinScenario_def petWriter_def petSuite_def petParser_def)

lemma upt_0_2: "[0 ..< 0 + length [missingField, missingField]] = [0, Suc 0]"
  by (simp add: upt_rec)

theorem unresolved_step_skipped_witness:
  "getOperationById (postmanParser (testSuite petWriter)) (step_openApiOperationId stepX) = None
   \<and> add keepIdentity freshDraw petStore petWriter
        (petScenario\<lparr>operations := [stepA] @ stepX # [stepB]\<rparr>) 0 =
       add keepIdentity freshDraw petStore petWriter
        (petScenario\<lparr>operations := [stepA] @ [stepB]\<rparr>) 0
   \<and> map pm_id (clonesOf keepIdentity freshDraw petStore petWriter petScenario 0) =
       [Some ''missingField-0.1'', Some ''missingField-0.11'']"
proof -
  note h = resolve_pets(2)
  from unresolved_step_skipped [where this = petWriter and step = stepX and iv = keepIdentity
      and random = freshDraw and st = petStore and integrationTest = petScenario
      and before = "[stepA]" and after = "[stepB]" and draws = 0, OF h]
  have a: "add keepIdentity freshDraw petStore petWriter
        (petScenario\<lparr>operations := [stepA] @ stepX # [stepB]\<rparr>) 0 =
       add keepIdentity freshDraw petStore petWriter
        (petScenario\<lparr>operations := [stepA] @ [stepB]\<rparr>) 0"
    by blast
  have b: "map pm_id (clonesOf keepIdentity freshDraw petStore petWriter petScenario 0) =
       [Some ''missingField-0.1'', Some ''missingField-0.11'']"
    unfolding clonesOf_ids [of keepIdentity, OF keepIdentity_id] expanded_petScenario upt_0_2
    by (simp add: cloneId_def missingField_def freshDraw_def)
  from h a b show ?thesis by blast
qed

text \<open>
  Claim C8 says that the identifier of a clone never equals that of another clone of the
  same run. The identifier is the variation name, a hyphen and the text of a draw of
  \<^verbatim>\<open>Math.random()\<close>, and nothing keeps two draws different: with two variations of
  one name and the same draw twice, the two clones get one identifier.
\<close>

theorem clone_identifiers_collide:
  "map pm_id (clonesOf keepIdentity sameDraw petStore petWriter twinScenario 0) =
     [Some ''missingField-0.5'', Some ''missingField-0.5'']
   \<and> \<not> distinct (map pm_id (clonesOf keepIdentity sameDraw petStore petWriter twinScenario 0))"
proof -
  have "map pm_id (clonesOf keepIdentity sameDraw petStore petWriter twinScenario 0) =
     [Some ''missingField-0.5'', Some ''missingField-0.5'']"
    unfolding clonesOf_ids [of keepIdentity, OF keepIdentity_id] expanded_twinScenario upt_0_2
    by (simp add: cloneId_def missingField_def sameDraw_def)
  then show ?thesis by simp
qed

text \<open>
  Claim C8, as amended. Let \<open>injectVariations\<close> keep the identifier of the clone. The
  identifiers of the clones of a call of \<open>add\<close> are, in order, the variation names of
  the steps that resolve, each followed by a hyphen and the text of its own draw. They
  are pairwise distinct when the draws of the call are apart: no two have the same text
  and none ends in a hyphen followed by another. And no clone has an identifier, of its
  source or of any record, that is apart from the draws of the call.
\<close>

theorem clone_identifiers_apart_when_draws_apart:
  assumes "\<forall>pm oa v. pm_id (iv pm oa v) = pm_id pm"
    and "n = length (expandedVariations (testSuite this) (operations scenario))"
  shows "map pm_id (clonesOf iv random st this scenario draws) =
           map (cloneId random)
             (zip (expandedVariations (testSuite this) (operations scenario))
                [draws ..< draws + n])
       \<and> (drawsApart random draws (draws + n) \<longrightarrow>
            distinct (map pm_id (clonesOf iv random st this scenario draws)))
       \<and> (\<forall>c \<in> set (clonesOf iv random st this scenario draws). \<forall>ident.
            identifierApart random draws (draws + n) ident \<longrightarrow> pm_id c \<noteq> Some ident)"
proof -
  let ?vs = "expandedVariations (testSuite this) (operations scenario)"
  have ids: "map pm_id (clonesOf iv random st this scenario draws) =
               map (cloneId random) (zip ?vs [draws ..< draws + n])"
    unfolding assms(2) using assms(1) by (intro clonesOf_ids) simp
  have 2: "distinct (map pm_id (clonesOf iv random st this scenario draws))"
    if "drawsApart random draws (draws + n)"
    unfolding ids using that unfolding assms(2) by (rule distinct_cloneIds)
  have 3: "pm_id c \<noteq> Some ident"
    if c: "c \<in> set (clonesOf iv random st this scenario draws)"
      and a: "identifierApart random draws (draws + n) ident" for c ident
  proof
    assume e: "pm_id c = Some ident"
    from c have "pm_id c \<in> set (map pm_id (clonesOf iv random st this scenario draws))" by simp
    then obtain v k where z: "(v, k) \<in> set (zip ?vs [draws ..< draws + n])"
      and i: "pm_id c = cloneId random (v, k)"
      unfolding ids by auto
    from z have k: "k \<in> {draws ..< draws + n}" by (auto dest: set_zip_rightD)
    from i e have "ident = var_name v @ CHR ''-'' # random k" by (simp add: cloneId_def)
    then have "suffix (CHR ''-'' # random k) ident" by (simp add: suffix_def)
    with a k show False by (auto simp: identifierApart_def)
  qed
  from ids 2 3 show ?thesis by blast
qed

lemma two_draws: "{0 ..< 0 + 2} = {0, Suc 0}"
  by auto

lemma freshDraw_apart: "drawsApart freshDraw 0 (0 + 2)"
  unfolding drawsApart_def two_draws
  by (simp add: freshDraw_def suffix_to_prefix)

lemma opA_apart: "identifierApart freshDraw 0 (0 + 2) ''opA''"
  unfolding identifierApart_def two_draws
  by (simp add: freshDraw_def suffix_to_prefix)

theorem clone_identifiers_apart_when_draws_apart_witness:
  "(\<forall>pm oa v. pm_id (keepIdentity pm oa v) = pm_id pm)
   \<and> 2 = length (expandedVariations (testSuite petWriter) (operations petScenario))
   \<and> drawsApart freshDraw 0 (0 + 2)
   \<and> identifierApart freshDraw 0 (0 + 2) ''opA''
   \<and> distinct (map pm_id (clonesOf keepIdentity freshDraw petStore petWriter petScenario 0))"
proof -
  have h1: "\<forall>pm oa v. pm_id (keepIdentity pm oa v) = pm_id pm" by (simp add: keepIdentity_id)
  have h2: "2 = length (expandedVariations (testSuite petWriter) (operations petScenario))"
    by (simp add: expanded_petScenario)
  from clone_identifiers_apart_when_draws_apart [OF h1 h2, of freshDraw petStore 0] freshDraw_apart
  have "distinct (map pm_id (clonesOf keepIdentity freshDraw petStore petWriter petScenario 0))"
    by blast
  with h1 h2 freshDraw_apart opA_apart show ?thesis by blast
qed

end
